theory Spec2Isabelle
  imports Complex_Main "HOL-Library.AList" "HOL-Library.Multiset"
begin

section \<open>Python values shared by the notebook's functions\<close>

text \<open>
  The notebook \<^verbatim>\<open>01_SEC_10k_embedding.ipynb\<close> is a straight-line script around five
  functions: \<^verbatim>\<open>parse_sections\<close>, \<^verbatim>\<open>wrap\<close>, the class \<^verbatim>\<open>Corpus\<close>, \<^verbatim>\<open>eval_model\<close> and
  the pair \<^verbatim>\<open>mean_pooling\<close> / \<^verbatim>\<open>get_embeddings\<close>. Each is embedded below as a HOL
  function. The libraries they call (spaCy's pipeline \<^verbatim>\<open>nlp\<close>, gensim's
  \<^verbatim>\<open>simple_preprocess\<close> and Doc2Vec model, the Hugging Face tokenizer and encoder) are
  not part of the repository: they are parameters of the embedded functions, so every
  theorem holds for whatever these libraries compute.

  An exception raised by the Python code is a value \<open>Inl e\<close> of a sum type. A Python
  \<^verbatim>\<open>dict\<close> is an association list kept in insertion order; assigning to a key that is
  present overwrites its value in place (\<open>AList.update\<close>), as Python does.
\<close>

datatype py_error =
  IndexError | KeyError | ValueError | ZeroDivisionError | InvalidArgumentError

text \<open>\<^verbatim>\<open>sep.join(parts)\<close> on a list of strings.\<close>

fun join :: "string \<Rightarrow> string list \<Rightarrow> string" where
  "join sep [] = []"
| "join sep [x] = x"
| "join sep (x # y # ys) = x @ sep @ join sep (y # ys)"

text \<open>\<^verbatim>\<open>any(flags)\<close> on a list of booleans.\<close>

definition py_any :: "bool list \<Rightarrow> bool" where
  "py_any flags = (True \<in> set flags)"

section \<open>Cleaning the filing sections: \<^verbatim>\<open>parse_sections\<close>\<close>

text \<open>
  A spaCy token, with the attributes the filter reads (\<^verbatim>\<open>token.text\<close>,
  \<^verbatim>\<open>token.is_stop\<close>, \<^verbatim>\<open>token.is_digit\<close>, \<^verbatim>\<open>token.is_alpha\<close>, \<^verbatim>\<open>token.is_punct\<close>,
  \<^verbatim>\<open>token.is_space\<close>, \<^verbatim>\<open>token.lemma_\<close>, \<^verbatim>\<open>token.pos_\<close>).
\<close>

record token =
  tok_text :: string
  is_stop :: bool
  is_digit :: bool
  is_alpha :: bool
  is_punct :: bool
  is_space :: bool
  tok_lemma :: string
  tok_pos :: string

text \<open>
  \<^verbatim>\<open>doc.sents\<close> of an analysed text: the sentences in order, each a list of tokens. The
  source guards every sentence with \<^verbatim>\<open>if sentence is not None\<close>, so a sentence is an
  option here and \<open>None\<close> is skipped.
\<close>

type_synonym sents = "token list option list"

text \<open>The test of the innermost \<^verbatim>\<open>if not any([...])\<close>: the token is kept.\<close>

definition keep_token :: "token \<Rightarrow> bool" where
  "keep_token t =
     (\<not> py_any [is_stop t,
                is_digit t,
                \<not> is_alpha t,
                is_punct t,
                is_space t,
                tok_lemma t = ''-PRON-'',
                tok_pos t \<in> set [''PUNCT'', ''SYM'', ''X'']])"

text \<open>The tokens that reach \<^verbatim>\<open>clean_sentence.append(token.text)\<close>, in order.\<close>

fun retained :: "sents \<Rightarrow> token list" where
  "retained [] = []"
| "retained (None # rest) = retained rest"
| "retained (Some sentence # rest) = filter keep_token sentence @ retained rest"

definition clean_sentence :: "sents \<Rightarrow> string list" where
  "clean_sentence doc = map tok_text (retained doc)"

text \<open>The body of \<^verbatim>\<open>for text in examples[col]\<close>: the string appended to \<^verbatim>\<open>docs\<close>.\<close>

definition parse_text :: "(string \<Rightarrow> sents) \<Rightarrow> string \<Rightarrow> string" where
  "parse_text nlp txt =
     (let cs = clean_sentence (nlp txt)
      in if length cs > 0 then join '' '' cs else [])"

text \<open>
  \<^verbatim>\<open>examples\<close> is the batch that \<^verbatim>\<open>Dataset.map(batched=True)\<close> passes: a dict from a
  column name to the list of that column's values. \<^verbatim>\<open>examples[col]\<close> raises KeyError
  for a column the batch does not have. The first loop of \<^verbatim>\<open>parse_sections\<close> fills the
  dict \<^verbatim>\<open>sections\<close>.
\<close>

type_synonym columns = "(string \<times> string list) list"

fun parse_cols ::
  "(string \<Rightarrow> sents) \<Rightarrow> (string \<rightharpoonup> string list) \<Rightarrow> string list \<Rightarrow> columns
     \<Rightarrow> py_error + columns" where
  "parse_cols nlp examples [] sections = Inr sections"
| "parse_cols nlp examples (col # cols) sections =
     (case examples col of
        None \<Rightarrow> Inl KeyError
      | Some texts \<Rightarrow>
          parse_cols nlp examples cols
            (AList.update col (map (parse_text nlp) texts) sections))"

text \<open>The key \<^verbatim>\<open>f"parsed_{section}"\<close>.\<close>

definition parsed_name :: "string \<Rightarrow> string" where
  "parsed_name section = ''parsed_'' @ section"

text \<open>The second loop: \<^verbatim>\<open>res[f"parsed_{section}"] = sections[section]\<close>.\<close>

definition add_parsed :: "columns \<Rightarrow> columns \<Rightarrow> columns" where
  "add_parsed sections res =
     fold (\<lambda>(section, docs). AList.update (parsed_name section) docs) sections res"

definition parse_sections ::
  "(string \<Rightarrow> sents) \<Rightarrow> (string \<rightharpoonup> string list) \<Rightarrow> string list \<Rightarrow> py_error + columns" where
  "parse_sections nlp examples col_names =
     (case parse_cols nlp examples col_names [] of
        Inl e \<Rightarrow> Inl e
      | Inr sections \<Rightarrow>
          (case examples ''cik'' of
             None \<Rightarrow> Inl KeyError
           | Some ciks \<Rightarrow>
               (case examples ''year'' of
                  None \<Rightarrow> Inl KeyError
                | Some years \<Rightarrow>
                    Inr (add_parsed sections [(''cik'', ciks), (''year'', years)]))))"

definition SECTIONS_TO_PARSE :: "string list" where
  "SECTIONS_TO_PARSE = [''section_1'', ''section_1A'', ''section_7'', ''section_7A'']"

section \<open>One record per filing section: \<^verbatim>\<open>wrap\<close>\<close>

text \<open>
  A \<^verbatim>\<open>datasets.Dataset\<close> is a table. The tables that reach \<^verbatim>\<open>wrap\<close> have the key
  columns \<^verbatim>\<open>cik\<close> and \<^verbatim>\<open>year\<close> and a number of text columns; \<open>column_names\<close> lists
  the text columns and \<open>column r col\<close> is the value of row \<open>r\<close> in text column \<open>col\<close>
  (read only for a column of the table). All values are strings, as in the
  EDGAR corpus the notebook loads. The notebook passes \<^verbatim>\<open>wrap\<close> names of text columns
  only; any other name is a column the table does not have.
\<close>

record filing_key =
  cik :: string
  year :: string

record filing = filing_key +
  column :: "string \<Rightarrow> string"

record dataset =
  column_names :: "string list"
  rows :: "filing list"

text \<open>
  A row of a table that \<^verbatim>\<open>wrap\<close> builds: the key columns, the added column
  \<^verbatim>\<open>section\<close>, and the text column, which \<^verbatim>\<open>rename_column(col, new_name)\<close> names
  \<^verbatim>\<open>new_name\<close> (\<open>body\<close> here, whatever its name).
\<close>

record section_row = filing_key +
  "section" :: string
  body :: string

text \<open>
  \<^verbatim>\<open>s.split(sep)\<close> for a one-character separator: the pieces between the separators,
  never an empty list. The last equation's \<open>[]\<close> case cannot arise and is there to
  make the case distinction complete.
\<close>

fun str_split :: "char \<Rightarrow> string \<Rightarrow> string list" where
  "str_split sep [] = [[]]"
| "str_split sep (c # cs) =
     (if c = sep then [] # str_split sep cs
      else (case str_split sep cs of
              [] \<Rightarrow> [[c]]
            | piece # pieces \<Rightarrow> (c # piece) # pieces))"

text \<open>\<^verbatim>\<open>col.split('_')[-1]\<close>.\<close>

definition section_name :: "string \<Rightarrow> string" where
  "section_name col = last (str_split (CHR ''_'') col)"

text \<open>
  One pass of the loop of \<^verbatim>\<open>wrap\<close>. The Hugging Face calls raise ValueError when
  \<^verbatim>\<open>select_columns\<close> is given a column the table does not have, when
  \<^verbatim>\<open>add_column\<close> adds a column name the table already has (\<^verbatim>\<open>col\<close> is itself
  \<^verbatim>\<open>'section'\<close>), and when \<^verbatim>\<open>rename_column\<close> is given an empty new name or one the table
  already has (as the library documents them; the library is not part of the repository).
\<close>

definition wrap_col :: "dataset \<Rightarrow> string \<Rightarrow> string \<Rightarrow> py_error + section_row list" where
  "wrap_col data new_name col =
     (if col \<notin> set (column_names data) then Inl ValueError
      else if col = ''section'' then Inl ValueError
      else if new_name = [] \<or> new_name \<in> set [''cik'', ''year'', col, ''section'']
        then Inl ValueError
      else Inr (map (\<lambda>example. \<lparr>cik = cik example, year = year example,
                        section = section_name col, body = column example col\<rparr>)
                 (filter (\<lambda>example. column example col \<noteq> []) (rows data))))"

fun wrap :: "dataset \<Rightarrow> string list \<Rightarrow> string \<Rightarrow> py_error + section_row list list" where
  "wrap data [] new_name = Inr []"
| "wrap data (col # cols) new_name =
     (case wrap_col data new_name col of
        Inl e \<Rightarrow> Inl e
      | Inr temp \<Rightarrow>
          (case wrap data cols new_name of
             Inl e \<Rightarrow> Inl e
           | Inr wrapped \<Rightarrow> Inr (temp # wrapped)))"

text \<open>
  \<^verbatim>\<open>datasets.concatenate_datasets(wrapped, axis=0)\<close>: the rows of the tables one after
  the other; the library refuses an empty list of tables.
\<close>

definition concatenate_datasets :: "section_row list list \<Rightarrow> py_error + section_row list" where
  "concatenate_datasets wrapped =
     (if wrapped = [] then Inl ValueError else Inr (concat wrapped))"

text \<open>The key triple of a record.\<close>

definition key_of :: "section_row \<Rightarrow> string \<times> string \<times> string" where
  "key_of r = (cik r, year r, section r)"

section \<open>The Doc2Vec corpus and its evaluation: \<^verbatim>\<open>Corpus\<close>, \<^verbatim>\<open>eval_model\<close>\<close>

text \<open>
  \<^verbatim>\<open>doc2vec.TaggedDocument(tokens, [i])\<close>, and \<^verbatim>\<open>Corpus.__iter__\<close>, which tags the
  document of row \<open>i\<close> with \<open>i\<close>. \<^verbatim>\<open>simple_preprocess\<close> is gensim's.
\<close>

record tagged_document =
  words :: "string list"
  tags :: "nat list"

definition Corpus_iter :: "(string \<Rightarrow> string list) \<Rightarrow> section_row list \<Rightarrow> tagged_document list" where
  "Corpus_iter simple_preprocess data =
     map (\<lambda>(i, line). \<lparr>words = simple_preprocess line, tags = [i]\<rparr>)
       (List.enumerate 0 (map body data))"

text \<open>
  The trained model, as far as \<^verbatim>\<open>eval_model\<close> uses it: \<^verbatim>\<open>model.infer_vector(words)\<close>
  and \<^verbatim>\<open>model.dv.most_similar(positive=[v], topn=topn)\<close>, a list of pairs of a document
  tag and a similarity (a float, a real number here).
\<close>

record 'v doc2vec =
  infer_vector :: "string list \<Rightarrow> 'v"
  most_similar :: "'v \<Rightarrow> nat \<Rightarrow> (nat \<times> real) list"

type_synonym key = "string \<times> string \<times> string"
type_synonym hit = "string \<times> string \<times> string \<times> real"
type_synonym top_dict = "(key \<times> hit) list"
type_synonym sim_dict = "(string \<times> (string \<times> nat) list) list"

text \<open>\<^verbatim>\<open>dict(Counter(xs))\<close>: how often each element occurs, keyed in order of first occurrence.\<close>

definition Counter :: "string list \<Rightarrow> (string \<times> nat) list" where
  "Counter xs =
     fold (\<lambda>x counts. AList.update x (case map_of counts x of None \<Rightarrow> 1 | Some n \<Rightarrow> n + 1) counts)
       xs []"

text \<open>
  \<^verbatim>\<open>train.data[:][['cik', 'year', 'section']].loc[docids].values\<close>: the key triples of
  the training rows labelled \<^verbatim>\<open>docids\<close>. The index of the frame is \<open>0 .. len - 1\<close>, and
  \<^verbatim>\<open>.loc\<close> raises KeyError for a label that is not in it.
\<close>

definition loc_keys :: "section_row list \<Rightarrow> nat list \<Rightarrow> py_error + key list" where
  "loc_keys train docids =
     (if list_all (\<lambda>d. d < length train) docids
      then Inr (map (\<lambda>d. key_of (train ! d)) docids)
      else Inl KeyError)"

text \<open>
  The body of the first loop of \<^verbatim>\<open>eval_model\<close> for one test row. The words of
  \<^verbatim>\<open>list(test)[doc_id]\<close> are \<^verbatim>\<open>simple_preprocess\<close> of the row's text
  (\<open>Corpus_iter\<close>). \<^verbatim>\<open>top_n[0]\<close> raises IndexError when the model returned no
  neighbour.
\<close>

definition eval_doc ::
  "'v doc2vec \<Rightarrow> (string \<Rightarrow> string list) \<Rightarrow> section_row list \<Rightarrow> nat \<Rightarrow> section_row
     \<Rightarrow> top_dict \<times> sim_dict \<Rightarrow> py_error + top_dict \<times> sim_dict" where
  "eval_doc model simple_preprocess train topn r acc =
     (let inferred_vector = infer_vector model (simple_preprocess (body r));
          sims = most_similar model inferred_vector topn;
          docids = map fst sims
      in case loc_keys train docids of
           Inl e \<Rightarrow> Inl e
         | Inr top_n \<Rightarrow>
             (case top_n of
                [] \<Rightarrow> Inl IndexError
              | (c, y, s) # _ \<Rightarrow>
                  Inr (AList.update (key_of r) (c, y, s, snd (hd sims)) (fst acc),
                       AList.update (cik r) (Counter (map fst top_n)) (snd acc))))"

fun eval_docs ::
  "'v doc2vec \<Rightarrow> (string \<Rightarrow> string list) \<Rightarrow> section_row list \<Rightarrow> nat \<Rightarrow> section_row list
     \<Rightarrow> top_dict \<times> sim_dict \<Rightarrow> py_error + top_dict \<times> sim_dict" where
  "eval_docs model simple_preprocess train topn [] acc = Inr acc"
| "eval_docs model simple_preprocess train topn (r # test) acc =
     (case eval_doc model simple_preprocess train topn r acc of
        Inl e \<Rightarrow> Inl e
      | Inr acc' \<Rightarrow> eval_docs model simple_preprocess train topn test acc')"

text \<open>The two counting loops over \<^verbatim>\<open>top\<close>.\<close>

definition same_document :: "key \<times> hit \<Rightarrow> bool" where
  "same_document kv =
     (case kv of ((c, y, s), (c', y', s', sim)) \<Rightarrow> c' = c \<and> y' = y \<and> s' = s)"

definition same_company :: "key \<times> hit \<Rightarrow> bool" where
  "same_company kv = (case kv of ((c, y, s), (c', y', s', sim)) \<Rightarrow> c' = c)"

text \<open>
  The value that a \<^verbatim>\<open>print\<close> of \<^verbatim>\<open>eval_model\<close> formats:
  \<^verbatim>\<open>accuracy / len(top) * 100\<close>. Python's \<^verbatim>\<open>/\<close> raises ZeroDivisionError on a zero
  divisor; the float result is a real number here.
\<close>

definition reported :: "nat \<Rightarrow> nat \<Rightarrow> py_error + real" where
  "reported accuracy n =
     (if n = 0 then Inl ZeroDivisionError else Inr (real accuracy / real n * 100))"

text \<open>
  \<^verbatim>\<open>eval_model\<close> itself. \<open>test\<close> and \<open>train\<close> are the tables of the two \<^verbatim>\<open>Corpus\<close>
  objects. The function returns \<^verbatim>\<open>top\<close> and \<^verbatim>\<open>sim_docs\<close> and prints two values, which
  are part of the result here.
\<close>

record eval_output =
  top :: top_dict
  sim_docs :: sim_dict
  printed_same_document :: real
  printed_same_company :: real

definition eval_model ::
  "section_row list \<Rightarrow> section_row list \<Rightarrow> 'v doc2vec \<Rightarrow> (string \<Rightarrow> string list) \<Rightarrow> nat
     \<Rightarrow> py_error + eval_output" where
  "eval_model test train model simple_preprocess topn =
     (case eval_docs model simple_preprocess train topn test ([], []) of
        Inl e \<Rightarrow> Inl e
      | Inr (top_d, sim_d) \<Rightarrow>
          (case reported (length (filter same_document top_d)) (length top_d) of
             Inl e \<Rightarrow> Inl e
           | Inr p1 \<Rightarrow>
               (case reported (length (filter same_company top_d)) (length top_d) of
                  Inl e \<Rightarrow> Inl e
                | Inr p2 \<Rightarrow>
                    Inr \<lparr>top = top_d, sim_docs = sim_d,
                         printed_same_document = p1, printed_same_company = p2\<rparr>)))"

section \<open>Pooling the encoder's output: \<^verbatim>\<open>mean_pooling\<close>, \<^verbatim>\<open>get_embeddings\<close>\<close>

text \<open>
  The tokenizer cuts every text of a batch into chunks of at most \<^verbatim>\<open>MAX_LENGTH\<close> tokens.
  \<^verbatim>\<open>token_embeddings\<close> has one vector per token of every chunk (shape chunks \<times> tokens
  \<times> hidden size), \<^verbatim>\<open>attention_mask\<close> one integer per token of every chunk (shape
  chunks \<times> tokens), and \<^verbatim>\<open>sample_map\<close> (the tokenizer's
  \<^verbatim>\<open>overflow_to_sample_mapping\<close>) the index of the text each chunk was cut from.

  A TensorFlow tensor has a shape, also when it has no chunk. A tensor is a record
  here: the size \<open>n_tokens\<close> of the token axis and the list \<open>chunks\<close> of its entries
  along the chunk axis, each a list of \<open>n_tokens\<close> entries (\<open>well_shaped\<close>; only such
  records stand for tensors). The last axis of \<^verbatim>\<open>token_embeddings\<close> is an element of a
  real vector space \<open>'v\<close>, whose operations are the element-wise ones of the source;
  \<^verbatim>\<open>float32\<close> numbers are real numbers, so rounding is left out.
\<close>

record 'a tensor =
  n_tokens :: nat
  chunks :: "'a list list"

definition well_shaped :: "'a tensor \<Rightarrow> bool" where
  "well_shaped t = list_all (\<lambda>chunk. length chunk = n_tokens t) (chunks t)"

definition BATCH_SIZE :: nat where
  "BATCH_SIZE = 16"

text \<open>\<^verbatim>\<open>np.where(sample_map==i)[0]\<close>: the positions of the chunks of sample \<open>i\<close>, ascending.\<close>

definition np_where :: "nat list \<Rightarrow> nat \<Rightarrow> nat list" where
  "np_where sample_map i = filter (\<lambda>j. sample_map ! j = i) [0..<length sample_map]"

text \<open>\<^verbatim>\<open>t[s_idx:e_idx]\<close>, on a list and along the chunk axis of a tensor.\<close>

definition slice :: "'a list \<Rightarrow> nat \<Rightarrow> nat \<Rightarrow> 'a list" where
  "slice t s_idx e_idx = take (e_idx - s_idx) (drop s_idx t)"

definition tensor_slice :: "'a tensor \<Rightarrow> nat \<Rightarrow> nat \<Rightarrow> 'a tensor" where
  "tensor_slice t s_idx e_idx = t\<lparr>chunks := slice (chunks t) s_idx e_idx\<rparr>"

text \<open>\<^verbatim>\<open>tf.expand_dims(tf.cast(attention_mask, tf.float32), -1)\<close>.\<close>

definition input_mask_expanded :: "int tensor \<Rightarrow> real tensor" where
  "input_mask_expanded attention_mask =
     \<lparr>n_tokens = n_tokens attention_mask,
      chunks = map (map real_of_int) (chunks attention_mask)\<rparr>"

text \<open>
  The product \<^verbatim>\<open>embeddings * input_mask\<close> of two tensors broadcasts: along an axis the
  two sizes must be equal or one of them 1, and the operand of size 1 is repeated;
  otherwise TensorFlow raises InvalidArgumentError. The last axis of the expanded mask
  has size 1 and always broadcasts over the hidden axis: each token vector is scaled
  by its mask entry.
\<close>

definition compatible :: "nat \<Rightarrow> nat \<Rightarrow> bool" where
  "compatible a b = (a = b \<or> a = 1 \<or> b = 1)"

definition broadcast_dim :: "nat \<Rightarrow> nat \<Rightarrow> nat" where
  "broadcast_dim a b = (if a = 1 then b else a)"

definition broadcast :: "nat \<Rightarrow> 'a list \<Rightarrow> 'a list" where
  "broadcast n xs = (if length xs = n then xs else replicate n (hd xs))"

text \<open>
  \<^verbatim>\<open>tf.reduce_sum(embeddings * input_mask, axis=[0, 1])\<close>: the broadcast product, summed
  over chunks and tokens.
\<close>

definition sum_embeddings :: "('v::real_vector) tensor \<Rightarrow> real tensor \<Rightarrow> py_error + 'v" where
  "sum_embeddings embeddings input_mask =
     (if compatible (length (chunks embeddings)) (length (chunks input_mask)) \<and>
         compatible (n_tokens embeddings) (n_tokens input_mask)
      then
        (let c = broadcast_dim (length (chunks embeddings)) (length (chunks input_mask));
             t = broadcast_dim (n_tokens embeddings) (n_tokens input_mask)
         in Inr (\<Sum>(chunk, chunk_mask)\<leftarrow>zip (broadcast c (chunks embeddings))
                                            (broadcast c (chunks input_mask)).
                   \<Sum>(e, m)\<leftarrow>zip (broadcast t chunk) (broadcast t chunk_mask). m *\<^sub>R e))
      else Inl InvalidArgumentError)"

text \<open>
  \<^verbatim>\<open>tf.clip_by_value(t, clip_value_min=lo, clip_value_max=np.inf)\<close>: the upper bound is
  infinite, so only the lower bound acts.
\<close>

definition clip_by_value :: "real \<Rightarrow> real \<Rightarrow> real" where
  "clip_by_value t clip_value_min = max t clip_value_min"

definition sum_mask :: "real tensor \<Rightarrow> real" where
  "sum_mask input_mask =
     clip_by_value (\<Sum>chunk_mask\<leftarrow>chunks input_mask. \<Sum>m\<leftarrow>chunk_mask. m) (1 / 10 ^ 7)"

text \<open>
  The body of \<^verbatim>\<open>for i in range(BATCH_SIZE)\<close>: indexing the empty array of positions
  with \<^verbatim>\<open>[0]\<close> raises IndexError, and the product raises InvalidArgumentError when the
  shapes of the two slices do not broadcast.
\<close>

definition pool_sample ::
  "('v::real_vector) tensor \<Rightarrow> real tensor \<Rightarrow> nat list \<Rightarrow> nat \<Rightarrow> py_error + 'v" where
  "pool_sample token_embeddings input_mask sample_map i =
     (case np_where sample_map i of
        [] \<Rightarrow> Inl IndexError
      | j # js \<Rightarrow>
          (let s_idx = j;
               e_idx = last (j # js) + 1
           in case sum_embeddings (tensor_slice token_embeddings s_idx e_idx)
                     (tensor_slice input_mask s_idx e_idx) of
                Inl e \<Rightarrow> Inl e
              | Inr summed \<Rightarrow>
                  Inr (summed /\<^sub>R sum_mask (tensor_slice input_mask s_idx e_idx))))"

fun pool_samples ::
  "('v::real_vector) tensor \<Rightarrow> real tensor \<Rightarrow> nat list \<Rightarrow> nat list \<Rightarrow> py_error + 'v list" where
  "pool_samples token_embeddings input_mask sample_map [] = Inr []"
| "pool_samples token_embeddings input_mask sample_map (i # rest) =
     (case pool_sample token_embeddings input_mask sample_map i of
        Inl e \<Rightarrow> Inl e
      | Inr v \<Rightarrow>
          (case pool_samples token_embeddings input_mask sample_map rest of
             Inl e \<Rightarrow> Inl e
           | Inr batch_result \<Rightarrow> Inr (v # batch_result)))"

text \<open>
  \<^verbatim>\<open>model_output[0]\<close> is the tensor of token embeddings; the other components of the
  encoder's output are not read.
\<close>

definition mean_pooling ::
  "('v::real_vector) tensor \<times> 'p \<Rightarrow> int tensor \<Rightarrow> nat list \<Rightarrow> py_error + 'v list" where
  "mean_pooling model_output attention_mask sample_map =
     pool_samples (fst model_output) (input_mask_expanded attention_mask) sample_map
       [0..<BATCH_SIZE]"

text \<open>
  The tokenizer's result: the tensors passed on to the encoder (\<open>model_inputs\<close>: the
  token ids and token type ids), the attention mask, and the sample map, which
  \<^verbatim>\<open>get_embeddings\<close> pops before it calls the encoder.
\<close>

record 'x encoding =
  model_inputs :: 'x
  attention_mask :: "int tensor"
  overflow_to_sample_mapping :: "nat list"

text \<open>The dict \<^verbatim>\<open>get_embeddings\<close> returns, one field per key.\<close>

record 'v embedded =
  cik_column :: "string list"
  year_column :: "string list"
  section_column :: "string list"
  embedding_column :: "'v list"

text \<open>
  \<^verbatim>\<open>get_embeddings(data, col_name)\<close>. \<^verbatim>\<open>col_name\<close> names the text column of the batch,
  so \<^verbatim>\<open>data[col_name]\<close> is the list of the \<open>body\<close> fields of its rows. The tokenizer and
  the encoder are the notebook's globals \<^verbatim>\<open>tokenizer\<close> and \<^verbatim>\<open>sbert_model\<close>.
\<close>

definition get_embeddings ::
  "(string list \<Rightarrow> 'x encoding) \<Rightarrow> ('x \<Rightarrow> int tensor \<Rightarrow> ('v::real_vector) tensor \<times> 'p)
     \<Rightarrow> section_row list \<Rightarrow> py_error + 'v embedded" where
  "get_embeddings tokenizer sbert_model data =
     (let encoded_input = tokenizer (map body data);
          sample_map = overflow_to_sample_mapping encoded_input;
          input_mask = attention_mask encoded_input;
          model_output = sbert_model (model_inputs encoded_input) input_mask
      in case mean_pooling model_output input_mask sample_map of
           Inl e \<Rightarrow> Inl e
         | Inr pooled \<Rightarrow>
             Inr \<lparr>cik_column = map cik data, year_column = map year data,
                  section_column = map section data, embedding_column = pooled\<rparr>)"

text \<open>
  The attention-mask-weighted average of the token vectors of the chunks of sample \<open>i\<close>,
  written from the words of the specification: the sum over the sample's chunks of the
  token vectors times their mask entries, divided by the sum of those mask entries.
\<close>

definition masked_average ::
  "('v::real_vector) tensor \<Rightarrow> int tensor \<Rightarrow> nat list \<Rightarrow> nat \<Rightarrow> 'v" where
  "masked_average token_embeddings input_mask sample_map i =
     (\<Sum>j\<leftarrow>np_where sample_map i.
        \<Sum>(e, m)\<leftarrow>zip (chunks token_embeddings ! j) (chunks input_mask ! j). real_of_int m *\<^sub>R e)
     /\<^sub>R (\<Sum>j\<leftarrow>np_where sample_map i. \<Sum>m\<leftarrow>chunks input_mask ! j. real_of_int m)"

section \<open>Notions used to state the properties of \<^verbatim>\<open>eval_model\<close>\<close>

text \<open>
  The list \<^verbatim>\<open>sims\<close> that the loop body of \<^verbatim>\<open>eval_model\<close> computes for a test row; the
  condition under which the body raises no exception for that row (the model returned
  at least one neighbour and every returned tag labels a training row); and the value
  the body then stores in \<^verbatim>\<open>top\<close> under the row's key: the key triple of the training
  row tagged by the first neighbour, with that neighbour's similarity.
\<close>

definition sims_of ::
  "'v doc2vec \<Rightarrow> (string \<Rightarrow> string list) \<Rightarrow> nat \<Rightarrow> section_row \<Rightarrow> (nat \<times> real) list" where
  "sims_of model simple_preprocess topn r =
     most_similar model (infer_vector model (simple_preprocess (body r))) topn"

definition retrievable ::
  "'v doc2vec \<Rightarrow> (string \<Rightarrow> string list) \<Rightarrow> section_row list \<Rightarrow> nat \<Rightarrow> section_row \<Rightarrow> bool" where
  "retrievable model simple_preprocess train topn r =
     (sims_of model simple_preprocess topn r \<noteq> [] \<and>
      list_all (\<lambda>d. d < length train) (map fst (sims_of model simple_preprocess topn r)))"

definition top1 ::
  "'v doc2vec \<Rightarrow> (string \<Rightarrow> string list) \<Rightarrow> section_row list \<Rightarrow> nat \<Rightarrow> section_row \<Rightarrow> hit" where
  "top1 model simple_preprocess train topn r =
     (case hd (sims_of model simple_preprocess topn r) of
        (docid, sim) \<Rightarrow> (case key_of (train ! docid) of (c, y, s) \<Rightarrow> (c, y, s, sim)))"

section \<open>Concrete inputs\<close>

text \<open>
  Small inputs on which the theorems below are instantiated. \<open>example_nlp\<close> stands for
  spaCy's analysis of two short texts: the first has three tokens in one sentence, the
  second of them a number; the second text is a single word.
\<close>

definition noun :: "string \<Rightarrow> token" where
  "noun w = \<lparr>tok_text = w, is_stop = False, is_digit = False, is_alpha = True,
             is_punct = False, is_space = False, tok_lemma = w, tok_pos = ''NOUN''\<rparr>"

definition numeral_token :: "string \<Rightarrow> token" where
  "numeral_token w = \<lparr>tok_text = w, is_stop = False, is_digit = True, is_alpha = False,
             is_punct = False, is_space = False, tok_lemma = w, tok_pos = ''NUM''\<rparr>"

definition example_nlp :: "string \<Rightarrow> sents" where
  "example_nlp txt =
     (if txt = ''Sold 3 units'' then [Some [noun ''Sold'', numeral_token ''3'', noun ''units'']]
      else if txt = ''Results'' then [Some [noun ''Results'']]
      else [])"

definition example_batch :: "string \<rightharpoonup> string list" where
  "example_batch =
     [''cik'' \<mapsto> [''718413''], ''year'' \<mapsto> [''2016''],
      ''section_1'' \<mapsto> [''Sold 3 units''], ''section_1A'' \<mapsto> [[]],
      ''section_7'' \<mapsto> [[]], ''section_7A'' \<mapsto> [[]]]"

text \<open>
  A table of two filings of one company with the four raw section columns; a section a
  filing does not have is the empty string. In \<open>duplicate_table\<close> the two rows carry
  the same company and year (a filing and its amendment).
\<close>

definition example_table :: dataset where
  "example_table =
     \<lparr>column_names = SECTIONS_TO_PARSE,
      rows = [\<lparr>cik = ''718413'', year = ''2015'',
                column = (\<lambda>col. if col = ''section_1'' then ''Sold 3 units'' else [])\<rparr>,
              \<lparr>cik = ''718413'', year = ''2016'',
                column = (\<lambda>col. if col = ''section_7'' then ''Results'' else [])\<rparr>]\<rparr>"

definition duplicate_table :: dataset where
  "duplicate_table =
     \<lparr>column_names = SECTIONS_TO_PARSE,
      rows = [\<lparr>cik = ''718413'', year = ''2016'',
                column = (\<lambda>col. if col = ''section_1'' then ''Sold 3 units'' else [])\<rparr>,
              \<lparr>cik = ''718413'', year = ''2016'',
                column = (\<lambda>col. if col = ''section_1'' then ''Sold 4 units'' else [])\<rparr>]\<rparr>"

text \<open>
  A full batch for \<^verbatim>\<open>mean_pooling\<close>: sixteen samples in seventeen chunks of two tokens,
  with a one-dimensional hidden space. Sample 0 was cut into chunks 0 and 1, sample
  \<open>i > 0\<close> is chunk \<open>i + 1\<close>; a padding token has mask 0 and the embedding 100. In
  \<open>zero_attention_mask\<close> every entry is 0; in \<open>cancelling_attention_mask\<close> the
  entries of sample 0 are 1, -1, 0, 0 and sum to 0 while the masked sum of its embeddings
  is 2 - 4.
\<close>

definition example_sample_map :: "nat list" where
  "example_sample_map = 0 # [0..<BATCH_SIZE]"

definition example_token_embeddings :: "real tensor" where
  "example_token_embeddings =
     \<lparr>n_tokens = 2,
      chunks = [2, 4] # [6, 100] # map (\<lambda>i. [real i, 100]) [1..<BATCH_SIZE]\<rparr>"

definition example_attention_mask :: "int tensor" where
  "example_attention_mask =
     \<lparr>n_tokens = 2, chunks = [1, 1] # [1, 0] # map (\<lambda>i. [1, 0]) [1..<BATCH_SIZE]\<rparr>"

definition zero_attention_mask :: "int tensor" where
  "zero_attention_mask = \<lparr>n_tokens = 2, chunks = replicate (Suc BATCH_SIZE) [0, 0]\<rparr>"

definition cancelling_attention_mask :: "int tensor" where
  "cancelling_attention_mask =
     \<lparr>n_tokens = 2, chunks = [1, - 1] # [0, 0] # map (\<lambda>i. [0, 0]) [1..<BATCH_SIZE]\<rparr>"

text \<open>
  A batch of two texts in three chunks, as the last batch of a table can be.
\<close>

definition short_sample_map :: "nat list" where
  "short_sample_map = [0, 0, 1]"

definition short_token_embeddings :: "real tensor" where
  "short_token_embeddings = \<lparr>n_tokens = 2, chunks = [[2, 4], [6, 100], [1, 100]]\<rparr>"

definition short_attention_mask :: "int tensor" where
  "short_attention_mask = \<lparr>n_tokens = 2, chunks = [[1, 1], [1, 0], [1, 0]]\<rparr>"

text \<open>
  A training table of two records, and a model that \<open>example_preprocess\<close> and
  \<open>example_model\<close> stand for: the inferred vector is the word list itself, the text
  \<^verbatim>\<open>Sold units\<close> has the training documents 0 and 1 as neighbours, every other text
  only document 1.
\<close>

definition example_train :: "section_row list" where
  "example_train =
     [\<lparr>cik = ''718413'', year = ''2015'', section = ''1'', body = ''Sold units''\<rparr>,
      \<lparr>cik = ''1000'', year = ''2015'', section = ''7'', body = ''Results''\<rparr>]"

definition example_preprocess :: "string \<Rightarrow> string list" where
  "example_preprocess line =
     (if line = ''Sold units'' then [''sold'', ''units'']
      else if line = ''Results'' then [''results'']
      else [])"

definition example_model :: "string list doc2vec" where
  "example_model =
     \<lparr>infer_vector = (\<lambda>doc_words. doc_words),
      most_similar = (\<lambda>v topn.
        take topn (if v = [''sold'', ''units''] then [(0, 9 / 10), (1, 1 / 10)]
                   else [(1, 8 / 10)]))\<rparr>"

text \<open>
  Test rows: \<open>row_a\<close> is training document 0; \<open>row_b\<close> is another section of the same
  filing; \<open>row_c\<close> is a later filing of the second company.
\<close>

definition row_a :: section_row where
  "row_a = \<lparr>cik = ''718413'', year = ''2015'', section = ''1'', body = ''Sold units''\<rparr>"

definition row_b :: section_row where
  "row_b = \<lparr>cik = ''718413'', year = ''2015'', section = ''7'', body = ''Results''\<rparr>"

definition row_c :: section_row where
  "row_c = \<lparr>cik = ''1000'', year = ''2016'', section = ''7'', body = ''Results''\<rparr>"

text \<open>
  Two tables whose four filings have all four sections, so that \<^verbatim>\<open>wrap\<close> gives sixteen
  records, one full batch; in \<open>raw_table\<close> every section is a text that cleaning
  changes. \<open>example_tokenizer\<close> and \<open>example_sbert_model\<close> stand for a tokenizer and an
  encoder: every text is one chunk of one token, the tokenizer passes the texts on, and
  the embedding of a token is the length of its text.
\<close>

definition full_table :: dataset where
  "full_table =
     \<lparr>column_names = SECTIONS_TO_PARSE,
      rows = map (\<lambda>y. \<lparr>cik = ''718413'', year = y, column = (\<lambda>col. ''Results'')\<rparr>)
               [''2012'', ''2013'', ''2014'', ''2015'']\<rparr>"

definition raw_table :: dataset where
  "raw_table =
     \<lparr>column_names = SECTIONS_TO_PARSE,
      rows = map (\<lambda>y. \<lparr>cik = ''718413'', year = y, column = (\<lambda>col. ''Sold 3 units'')\<rparr>)
               [''2012'', ''2013'', ''2014'', ''2015'']\<rparr>"

definition example_tokenizer :: "string list \<Rightarrow> string list encoding" where
  "example_tokenizer texts =
     \<lparr>model_inputs = texts,
      attention_mask = \<lparr>n_tokens = 1, chunks = map (\<lambda>txt. [1]) texts\<rparr>,
      overflow_to_sample_mapping = [0..<length texts]\<rparr>"

definition example_sbert_model :: "string list \<Rightarrow> int tensor \<Rightarrow> real tensor \<times> unit" where
  "example_sbert_model texts att =
     (\<lparr>n_tokens = 1, chunks = map (\<lambda>txt. [real (length txt)]) texts\<rparr>, ())"

text \<open>
  A full batch of one chunk per text in which the encoder's output has one token per
  chunk and the attention mask two: the product broadcasts the token vector over the
  two mask entries.
\<close>

definition broadcast_token_embeddings :: "real tensor" where
  "broadcast_token_embeddings = \<lparr>n_tokens = 1, chunks = replicate BATCH_SIZE [3]\<rparr>"

definition broadcast_attention_mask :: "int tensor" where
  "broadcast_attention_mask = \<lparr>n_tokens = 2, chunks = replicate BATCH_SIZE [1, 1]\<rparr>"

section \<open>Properties of \<^verbatim>\<open>parse_sections\<close>\<close>

lemma retained_keep: "t \<in> set (retained doc) \<Longrightarrow> keep_token t"
  by (induction doc rule: retained.induct) auto

lemma keep_token_iff:
  "keep_token t \<longleftrightarrow>
     \<not> is_stop t \<and> \<not> is_digit t \<and> is_alpha t \<and> \<not> is_punct t \<and> \<not> is_space t \<and>
     tok_lemma t \<noteq> ''-PRON-'' \<and> tok_pos t \<notin> {''PUNCT'', ''SYM'', ''X''}"
  unfolding keep_token_def py_any_def by auto

text \<open>
  The \<^verbatim>\<open>else\<close> branch of \<^verbatim>\<open>if len(clean_sentence) > 0\<close> appends the empty string,
  which is what joining no tokens gives: the cleaned text is always the retained
  tokens' texts joined by one space.
\<close>

lemma parse_text_join: "parse_text nlp txt = join '' '' (map tok_text (retained (nlp txt)))"
  by (simp add: parse_text_def clean_sentence_def Let_def)

lemma parse_cols_distinct:
  "parse_cols nlp examples cols acc = Inr sections \<Longrightarrow> distinct (map fst acc)
     \<Longrightarrow> distinct (map fst sections)"
  by (induction cols arbitrary: acc) (auto split: option.splits simp: distinct_update)

lemma parse_cols_lookup:
  "parse_cols nlp examples cols acc = Inr sections \<Longrightarrow>
     map_of sections k =
       (if k \<in> set cols then map_option (map (parse_text nlp)) (examples k) else map_of acc k)"
proof (induction cols arbitrary: acc)
  case Nil
  then show ?case by simp
next
  case (Cons col cols)
  then show ?case
    by (auto split: option.splits simp: update_conv')
qed

lemma parse_cols_present:
  "parse_cols nlp examples cols acc = Inr sections \<Longrightarrow> set cols \<subseteq> dom examples"
  by (induction cols arbitrary: acc) (auto split: option.splits)

lemma parse_cols_keys:
  "parse_cols nlp examples cols acc = Inr sections \<Longrightarrow>
     set (map fst sections) = set (map fst acc) \<union> set cols"
  by (induction cols arbitrary: acc) (auto split: option.splits simp: dom_update[simplified])

lemma parse_cols_fails:
  "parse_cols nlp examples cols acc = Inl e \<Longrightarrow> e = KeyError \<and> \<not> set cols \<subseteq> dom examples"
  by (induction cols arbitrary: acc) (auto split: option.splits)

lemma parsed_name_inj [simp]: "parsed_name a = parsed_name b \<longleftrightarrow> a = b"
  by (simp add: parsed_name_def)

lemma parsed_name_not_key [simp]:
  "parsed_name a \<noteq> ''cik''" "parsed_name a \<noteq> ''year''"
  "''cik'' \<noteq> parsed_name a" "''year'' \<noteq> parsed_name a"
  by (simp_all add: parsed_name_def)

lemma add_parsed_lookup_parsed:
  "distinct (map fst sections) \<Longrightarrow>
     map_of (add_parsed sections res) (parsed_name s) =
       (case map_of sections s of Some d \<Rightarrow> Some d | None \<Rightarrow> map_of res (parsed_name s))"
  unfolding add_parsed_def
proof (induction sections arbitrary: res)
  case Nil
  then show ?case by simp
next
  case (Cons a sections)
  obtain s0 d0 where a: "a = (s0, d0)" by (cases a)
  from Cons.prems have d: "distinct (map fst sections)" and n: "s0 \<notin> fst ` set sections"
    by (auto simp: a)
  show ?case
  proof (cases "s = s0")
    case True
    with n have "map_of sections s = None" by (simp add: map_of_eq_None_iff)
    then show ?thesis using Cons.IH[OF d] True by (simp add: a update_conv')
  next
    case False
    then show ?thesis using Cons.IH[OF d] by (simp add: a update_conv' split: option.splits)
  qed
qed

lemma add_parsed_lookup_other:
  "(\<And>s. k \<noteq> parsed_name s) \<Longrightarrow> map_of (add_parsed sections res) k = map_of res k"
  unfolding add_parsed_def
  by (induction sections arbitrary: res) (auto simp: update_conv')

lemma add_parsed_keys:
  "fst ` set (add_parsed sections res) = fst ` set res \<union> parsed_name ` fst ` set sections"
  unfolding add_parsed_def
proof (induction sections arbitrary: res)
  case Nil
  then show ?case by simp
next
  case (Cons a sections)
  show ?case
    using Cons.IH[of "AList.update (parsed_name (fst a)) (snd a) res"]
    by (auto simp: dom_update case_prod_beta)
qed

lemma parse_sections_Inr:
  assumes "parse_sections nlp examples col_names = Inr res"
  obtains sections ciks years where
    "parse_cols nlp examples col_names [] = Inr sections"
    "examples ''cik'' = Some ciks" "examples ''year'' = Some years"
    "res = add_parsed sections [(''cik'', ciks), (''year'', years)]"
  using assms unfolding parse_sections_def
  by (auto split: sum.splits option.splits)

lemma parse_sections_fails:
  assumes "parse_sections nlp examples col_names = Inl e"
  shows "e = KeyError \<and> \<not> set col_names \<union> {''cik'', ''year''} \<subseteq> dom examples"
  using assms parse_cols_fails[of nlp examples col_names "[]"] unfolding parse_sections_def
  by (auto split: sum.splits option.splits)

lemma example_parse:
  "parse_sections example_nlp example_batch SECTIONS_TO_PARSE =
     Inr [(''cik'', [''718413'']), (''year'', [''2016'']),
          (''parsed_section_1'', [''Sold units'']), (''parsed_section_1A'', [[]]),
          (''parsed_section_7'', [[]]), (''parsed_section_7A'', [[]])]"
  by (simp add: parse_sections_def SECTIONS_TO_PARSE_def example_batch_def add_parsed_def
      parsed_name_def parse_text_def clean_sentence_def example_nlp_def noun_def
      numeral_token_def keep_token_def py_any_def)

text \<open>
  Claim C2. For every batch that has the columns \<^verbatim>\<open>cik\<close>, \<^verbatim>\<open>year\<close> and the listed
  ones, \<^verbatim>\<open>parse_sections\<close> returns, and the output column \<^verbatim>\<open>parsed_<col>\<close> of every
  listed column holds, for each input text, the texts of the retained tokens joined by
  single spaces, where every retained token passes the exclusion predicate: it is not
  a stop word, not a digit token, is alphabetic, is not punctuation, is not whitespace,
  its lemma is not \<^verbatim>\<open>-PRON-\<close>, and its part-of-speech tag is none of \<^verbatim>\<open>PUNCT\<close>,
  \<^verbatim>\<open>SYM\<close>, \<^verbatim>\<open>X\<close>.
\<close>

theorem parse_sections_retained_tokens:
  assumes "set col_names \<union> {''cik'', ''year''} \<subseteq> dom examples" and "col \<in> set col_names"
  shows "\<exists>res texts.
           parse_sections nlp examples col_names = Inr res \<and>
           examples col = Some texts \<and>
           map_of res (parsed_name col) =
             Some (map (\<lambda>txt. join '' '' (map tok_text (retained (nlp txt)))) texts) \<and>
           (\<forall>txt \<in> set texts. \<forall>t \<in> set (retained (nlp txt)).
              \<not> is_stop t \<and> \<not> is_digit t \<and> is_alpha t \<and> \<not> is_punct t \<and> \<not> is_space t \<and>
              tok_lemma t \<noteq> ''-PRON-'' \<and> tok_pos t \<notin> {''PUNCT'', ''SYM'', ''X''})"
proof -
  obtain res where r: "parse_sections nlp examples col_names = Inr res"
    using assms(1) parse_sections_fails[of nlp examples col_names]
    by (cases "parse_sections nlp examples col_names") auto
  then obtain sections ciks years where
    pc: "parse_cols nlp examples col_names [] = Inr sections" and
    res: "res = add_parsed sections [(''cik'', ciks), (''year'', years)]"
    by (rule parse_sections_Inr)
  from assms obtain texts where texts: "examples col = Some texts"
    by auto
  have dist: "distinct (map fst sections)"
    using parse_cols_distinct[OF pc] by simp
  have "map_of sections col = Some (map (parse_text nlp) texts)"
    using parse_cols_lookup[OF pc, of col] assms(2) texts by simp
  then have "map_of res (parsed_name col) = Some (map (parse_text nlp) texts)"
    unfolding res by (simp add: add_parsed_lookup_parsed[OF dist])
  moreover have "map (parse_text nlp) texts =
      map (\<lambda>txt. join '' '' (map tok_text (retained (nlp txt)))) texts"
    by (simp add: parse_text_join)
  moreover have "\<forall>txt \<in> set texts. \<forall>t \<in> set (retained (nlp txt)).
              \<not> is_stop t \<and> \<not> is_digit t \<and> is_alpha t \<and> \<not> is_punct t \<and> \<not> is_space t \<and>
              tok_lemma t \<noteq> ''-PRON-'' \<and> tok_pos t \<notin> {''PUNCT'', ''SYM'', ''X''}"
    using retained_keep keep_token_iff by blast
  ultimately show ?thesis using texts r by simp
qed

theorem parse_sections_retained_tokens_witness:
  "\<exists>res texts.
      parse_sections example_nlp example_batch SECTIONS_TO_PARSE = Inr res \<and>
      example_batch ''section_1'' = Some texts \<and>
      map_of res (parsed_name ''section_1'') = Some [''Sold units''] \<and>
      list_all (\<lambda>txt. list_all (\<lambda>t.
              \<not> is_stop t \<and> \<not> is_digit t \<and> is_alpha t \<and> \<not> is_punct t \<and> \<not> is_space t \<and>
              tok_lemma t \<noteq> ''-PRON-'' \<and> tok_pos t \<notin> {''PUNCT'', ''SYM'', ''X''})
           (retained (example_nlp txt))) texts"
proof -
  have 1: "set SECTIONS_TO_PARSE \<union> {''cik'', ''year''} \<subseteq> dom example_batch"
    by (simp add: SECTIONS_TO_PARSE_def example_batch_def)
  have 2: "''section_1'' \<in> set SECTIONS_TO_PARSE"
    by (simp add: SECTIONS_TO_PARSE_def)
  from parse_sections_retained_tokens[OF 1 2, of example_nlp]
  show ?thesis
    unfolding example_parse
    by (auto simp: list_all_iff parsed_name_def)
qed

text \<open>
  Claim C7. \<^verbatim>\<open>parse_sections\<close> raises (a KeyError) exactly when the batch lacks
  \<^verbatim>\<open>cik\<close>, \<^verbatim>\<open>year\<close> or a listed column. Otherwise the result carries the batch's
  \<^verbatim>\<open>cik\<close> and \<^verbatim>\<open>year\<close> columns unchanged, its keys are \<^verbatim>\<open>cik\<close>, \<^verbatim>\<open>year\<close> and one
  \<^verbatim>\<open>parsed_<col>\<close> per listed column and nothing else, and each \<^verbatim>\<open>parsed_<col>\<close> holds,
  row by row, the texts of the retained tokens of column \<^verbatim>\<open>col\<close> joined by single
  spaces.
\<close>

theorem parse_sections_keeps_keys:
  "(case parse_sections nlp examples col_names of
      Inl e \<Rightarrow> e = KeyError \<and> \<not> set col_names \<union> {''cik'', ''year''} \<subseteq> dom examples
    | Inr res \<Rightarrow>
        set col_names \<union> {''cik'', ''year''} \<subseteq> dom examples \<and>
        map_of res ''cik'' = examples ''cik'' \<and>
        map_of res ''year'' = examples ''year'' \<and>
        fst ` set res = {''cik'', ''year''} \<union> parsed_name ` set col_names \<and>
        (\<forall>col \<in> set col_names.
           map_of res (parsed_name col) =
             map_option (map (\<lambda>txt. join '' '' (map tok_text (retained (nlp txt)))))
               (examples col)))"
proof (cases "parse_sections nlp examples col_names")
  case (Inl e)
  then show ?thesis using parse_sections_fails[OF Inl] by simp
next
  case (Inr res)
  then obtain sections ciks years where
    pc: "parse_cols nlp examples col_names [] = Inr sections" and
    c: "examples ''cik'' = Some ciks" and y: "examples ''year'' = Some years" and
    res: "res = add_parsed sections [(''cik'', ciks), (''year'', years)]"
    by (rule parse_sections_Inr)
  have dist: "distinct (map fst sections)"
    using parse_cols_distinct[OF pc] by simp
  have keys: "fst ` set sections = set col_names"
    using parse_cols_keys[OF pc] by simp
  have 1: "set col_names \<union> {''cik'', ''year''} \<subseteq> dom examples"
    using parse_cols_present[OF pc] c y by auto
  have 2: "map_of res ''cik'' = examples ''cik''" "map_of res ''year'' = examples ''year''"
    unfolding res by (simp_all add: add_parsed_lookup_other c y)
  have 3: "fst ` set res = {''cik'', ''year''} \<union> parsed_name ` set col_names"
    unfolding res by (simp add: add_parsed_keys keys)
  have 4: "map_of res (parsed_name col) =
      map_option (map (\<lambda>txt. join '' '' (map tok_text (retained (nlp txt))))) (examples col)"
    if "col \<in> set col_names" for col
  proof -
    from 1 that obtain texts where t: "examples col = Some texts" by auto
    have "map_of sections col = Some (map (parse_text nlp) texts)"
      using parse_cols_lookup[OF pc, of col] that t by simp
    then show ?thesis
      unfolding res by (simp add: add_parsed_lookup_parsed[OF dist] t parse_text_join)
  qed
  show ?thesis using Inr 1 2 3 4 by simp
qed

theorem parse_sections_keeps_keys_witness:
  "map_of (projr (parse_sections example_nlp example_batch SECTIONS_TO_PARSE)) ''cik''
      = example_batch ''cik'' \<and>
   map_of (projr (parse_sections example_nlp example_batch SECTIONS_TO_PARSE)) ''year''
      = example_batch ''year'' \<and>
   map_of (projr (parse_sections example_nlp example_batch SECTIONS_TO_PARSE))
      (parsed_name ''section_1'') =
        map_option (map (\<lambda>txt. join '' '' (map tok_text (retained (example_nlp txt)))))
          (example_batch ''section_1'')"
  using parse_sections_keeps_keys[where nlp = example_nlp and examples = example_batch
      and col_names = SECTIONS_TO_PARSE]
  unfolding example_parse
  by (simp add: SECTIONS_TO_PARSE_def)

section \<open>Properties of \<^verbatim>\<open>wrap\<close>\<close>

text \<open>
  \<^verbatim>\<open>split\<close> never returns an empty list, so \<^verbatim>\<open>[-1]\<close> is always defined; the last
  piece is what follows the last separator (the whole string when there is none).
\<close>

lemma str_split_not_Nil: "str_split sep s \<noteq> []"
  by (induction s) (auto split: list.splits)

lemma str_split_single: "str_split sep s = [p] \<longleftrightarrow> sep \<notin> set s \<and> p = s"
proof (induction s arbitrary: p)
  case Nil
  then show ?case by auto
next
  case (Cons c cs)
  show ?case
  proof (cases "c = sep")
    case True
    then show ?thesis using str_split_not_Nil[of sep cs] by auto
  next
    case False
    show ?thesis
    proof (cases "str_split sep cs")
      case Nil
      then show ?thesis using str_split_not_Nil[of sep cs] by simp
    next
      case (Cons piece pieces)
      then show ?thesis using Cons.IH[of piece] Cons.IH[of cs] False by auto
    qed
  qed
qed

lemma last_str_split: "last (str_split sep s) = rev (takeWhile (\<lambda>c. c \<noteq> sep) (rev s))"
proof (induction s)
  case Nil
  then show ?case by simp
next
  case (Cons c cs)
  show ?case
  proof (cases "c = sep")
    case True
    then show ?thesis using Cons.IH str_split_not_Nil[of sep cs]
      by (auto simp: takeWhile_append)
  next
    case False
    obtain piece pieces where sp: "str_split sep cs = piece # pieces"
      using str_split_not_Nil[of sep cs] by (cases "str_split sep cs") auto
    show ?thesis
    proof (cases "pieces = []")
      case True
      with sp have "sep \<notin> set cs" "piece = cs" using str_split_single[of sep cs piece] by auto
      then show ?thesis using False sp True by (auto simp: takeWhile_append)
    next
      case False
      with sp have "sep \<in> set cs" using str_split_single[of sep cs cs] by auto
      then show ?thesis using \<open>c \<noteq> sep\<close> sp False Cons.IH by (auto simp: takeWhile_append)
    qed
  qed
qed

lemma section_name_after_last:
  "section_name col = rev (takeWhile (\<lambda>c. c \<noteq> CHR ''_'') (rev col))"
  by (simp add: section_name_def last_str_split)

text \<open>
  \<^verbatim>\<open>wrap\<close> in closed form: it raises ValueError when a Hugging Face call refuses a
  column name, and otherwise returns one table per listed column, built from the rows
  whose text in that column is not empty.
\<close>

lemma wrap_eq:
  "wrap data col_names new_name =
     (if \<forall>col \<in> set col_names. col \<in> set (column_names data) \<and> col \<noteq> ''section'' \<and>
           new_name \<notin> {[], ''cik'', ''year'', col, ''section''}
      then Inr (map (\<lambda>col. map (\<lambda>example. \<lparr>cik = cik example, year = year example,
                        section = section_name col, body = column example col\<rparr>)
                 (filter (\<lambda>example. column example col \<noteq> []) (rows data))) col_names)
      else Inl ValueError)"
  by (induction col_names) (auto simp: wrap_col_def)

lemma keys_of_wrapped_col:
  "map key_of (map (\<lambda>example. \<lparr>cik = cik example, year = year example,
                        section = section_name col, body = column example col\<rparr>) xs) =
     map (\<lambda>r. (cik r, year r, section_name col)) xs"
  by (simp add: key_of_def)

lemma wrap_keys_distinct:
  assumes "distinct (map (\<lambda>r. (cik r, year r)) rws)" "distinct (map section_name cols)"
  shows "distinct (map key_of (concat (map (\<lambda>col. map (\<lambda>example. \<lparr>cik = cik example, year = year example,
                        section = section_name col, body = column example col\<rparr>)
                 (filter (\<lambda>example. column example col \<noteq> []) rws)) cols)))"
  using assms(2)
proof (induction cols)
  case Nil
  then show ?case by simp
next
  case (Cons col cols)
  define A where "A = map (\<lambda>r. (cik r, year r, section_name col))
       (filter (\<lambda>example. column example col \<noteq> []) rws)"
  define B where "B = map key_of (concat (map (\<lambda>col. map (\<lambda>example. \<lparr>cik = cik example, year = year example,
                        section = section_name col, body = column example col\<rparr>)
                 (filter (\<lambda>example. column example col \<noteq> []) rws)) cols))"
  have "distinct (map (\<lambda>r. (cik r, year r)) (filter (\<lambda>example. column example col \<noteq> []) rws))"
    using assms(1) by (rule distinct_map_filter)
  then have a: "distinct A"
    unfolding A_def by (auto simp: distinct_map inj_on_def)
  have b: "distinct B"
    unfolding B_def using Cons by simp
  have c: "section_name col \<notin> section_name ` set cols"
    using Cons.prems by simp
  have d: "\<forall>k \<in> set B. snd (snd k) \<in> section_name ` set cols"
    unfolding B_def by (auto simp: key_of_def)
  have e: "\<forall>k \<in> set A. snd (snd k) = section_name col"
    unfolding A_def by auto
  have "set A \<inter> set B = {}"
    using c d e by fastforce
  then have "distinct (A @ B)"
    using a b by simp
  moreover have "map key_of (concat (map (\<lambda>col. map (\<lambda>example. \<lparr>cik = cik example, year = year example,
                        section = section_name col, body = column example col\<rparr>)
                 (filter (\<lambda>example. column example col \<noteq> []) rws)) (col # cols))) = A @ B"
    unfolding A_def B_def by (simp add: key_of_def)
  ultimately show ?case by (simp only:)
qed

lemma example_wrap:
  "wrap example_table SECTIONS_TO_PARSE ''raw_sections'' =
     Inr [[\<lparr>cik = ''718413'', year = ''2015'', section = ''1'', body = ''Sold 3 units''\<rparr>],
          [],
          [\<lparr>cik = ''718413'', year = ''2016'', section = ''7'', body = ''Results''\<rparr>],
          []]"
  by (simp add: wrap_eq section_name_def example_table_def SECTIONS_TO_PARSE_def)

text \<open>
  Claim C10. \<^verbatim>\<open>wrap\<close> returns (rather than raising ValueError) exactly when every
  listed column is a column of the table other than \<^verbatim>\<open>section\<close> and the new name is
  non-empty and fresh. It then returns one table per listed column, in order, holding one
  record for every input row whose text in that column is not the empty string and
  none for the others: every record has a non-empty text, its \<^verbatim>\<open>section\<close> field is the
  part of the column name after the last underscore, and it carries the \<^verbatim>\<open>cik\<close>,
  \<^verbatim>\<open>year\<close> and text of an input row.
\<close>

theorem wrap_nonempty_sections:
  "wrap data col_names new_name =
     (if \<forall>col \<in> set col_names. col \<in> set (column_names data) \<and> col \<noteq> ''section'' \<and>
           new_name \<notin> {[], ''cik'', ''year'', col, ''section''}
      then Inr (map (\<lambda>col. map (\<lambda>example. \<lparr>cik = cik example, year = year example,
                        section = rev (takeWhile (\<lambda>c. c \<noteq> CHR ''_'') (rev col)),
                        body = column example col\<rparr>)
                 (filter (\<lambda>example. column example col \<noteq> []) (rows data))) col_names)
      else Inl ValueError) \<and>
   (\<forall>wrapped. wrap data col_names new_name = Inr wrapped \<longrightarrow>
      length wrapped = length col_names \<and>
      (\<forall>i < length col_names.
         length (wrapped ! i) =
           length (filter (\<lambda>example. column example (col_names ! i) \<noteq> []) (rows data)) \<and>
         (\<forall>r \<in> set (wrapped ! i).
            body r \<noteq> [] \<and>
            section r = rev (takeWhile (\<lambda>c. c \<noteq> CHR ''_'') (rev (col_names ! i))) \<and>
            (\<exists>example \<in> set (rows data).
               body r = column example (col_names ! i) \<and>
               cik r = cik example \<and> year r = year example))))"
proof -
  have 1: "wrap data col_names new_name =
     (if \<forall>col \<in> set col_names. col \<in> set (column_names data) \<and> col \<noteq> ''section'' \<and>
           new_name \<notin> {[], ''cik'', ''year'', col, ''section''}
      then Inr (map (\<lambda>col. map (\<lambda>example. \<lparr>cik = cik example, year = year example,
                        section = rev (takeWhile (\<lambda>c. c \<noteq> CHR ''_'') (rev col)),
                        body = column example col\<rparr>)
                 (filter (\<lambda>example. column example col \<noteq> []) (rows data))) col_names)
      else Inl ValueError)"
    unfolding wrap_eq section_name_after_last ..
  have 2: "length wrapped = length col_names \<and>
      (\<forall>i < length col_names.
         length (wrapped ! i) =
           length (filter (\<lambda>example. column example (col_names ! i) \<noteq> []) (rows data)) \<and>
         (\<forall>r \<in> set (wrapped ! i).
            body r \<noteq> [] \<and>
            section r = rev (takeWhile (\<lambda>c. c \<noteq> CHR ''_'') (rev (col_names ! i))) \<and>
            (\<exists>example \<in> set (rows data).
               body r = column example (col_names ! i) \<and>
               cik r = cik example \<and> year r = year example)))"
    if "wrap data col_names new_name = Inr wrapped" for wrapped
  proof -
    from that have w: "wrapped = map (\<lambda>col. map (\<lambda>example. \<lparr>cik = cik example, year = year example,
                        section = rev (takeWhile (\<lambda>c. c \<noteq> CHR ''_'') (rev col)),
                        body = column example col\<rparr>)
                 (filter (\<lambda>example. column example col \<noteq> []) (rows data))) col_names"
      unfolding 1 by (simp split: if_splits)
    show ?thesis unfolding w by auto
  qed
  show ?thesis using 1 2 by blast
qed

theorem wrap_nonempty_sections_witness:
  "wrap example_table SECTIONS_TO_PARSE ''raw_sections'' =
     Inr [[\<lparr>cik = ''718413'', year = ''2015'', section = ''1'', body = ''Sold 3 units''\<rparr>],
          [],
          [\<lparr>cik = ''718413'', year = ''2016'', section = ''7'', body = ''Results''\<rparr>],
          []] \<and>
   list_all (\<lambda>r. body r \<noteq> [] \<and> section r = ''1'')
     [\<lparr>cik = ''718413'', year = ''2015'', section = ''1'', body = ''Sold 3 units''\<rparr>]"
proof -
  have ok: "\<forall>col \<in> set SECTIONS_TO_PARSE. col \<in> set (column_names example_table) \<and>
      col \<noteq> ''section'' \<and> ''raw_sections'' \<notin> {[], ''cik'', ''year'', col, ''section''}"
    by (simp add: SECTIONS_TO_PARSE_def example_table_def)
  have pos: "0 < length SECTIONS_TO_PARSE"
    by (simp add: SECTIONS_TO_PARSE_def)
  note t = wrap_nonempty_sections[of example_table SECTIONS_TO_PARSE "''raw_sections''"]
  from t ok have w: "wrap example_table SECTIONS_TO_PARSE ''raw_sections'' =
      Inr (map (\<lambda>col. map (\<lambda>example. \<lparr>cik = cik example, year = year example,
                        section = rev (takeWhile (\<lambda>c. c \<noteq> CHR ''_'') (rev col)),
                        body = column example col\<rparr>)
                 (filter (\<lambda>example. column example col \<noteq> []) (rows example_table)))
             SECTIONS_TO_PARSE)"
    by simp
  then have 1: "wrap example_table SECTIONS_TO_PARSE ''raw_sections'' =
     Inr [[\<lparr>cik = ''718413'', year = ''2015'', section = ''1'', body = ''Sold 3 units''\<rparr>],
          [],
          [\<lparr>cik = ''718413'', year = ''2016'', section = ''7'', body = ''Results''\<rparr>],
          []]"
    by (simp add: SECTIONS_TO_PARSE_def example_table_def)
  from t[THEN conjunct2, rule_format, OF 1, THEN conjunct2, rule_format, OF pos,
      THEN conjunct2]
  have "list_all (\<lambda>r. body r \<noteq> [] \<and> section r = ''1'')
     [\<lparr>cik = ''718413'', year = ''2015'', section = ''1'', body = ''Sold 3 units''\<rparr>]"
    by (simp add: SECTIONS_TO_PARSE_def)
  with 1 show ?thesis by simp
qed

section \<open>Properties of \<^verbatim>\<open>mean_pooling\<close>\<close>

lemma np_where_Nil_iff: "np_where sample_map i = [] \<longleftrightarrow> i \<notin> set sample_map"
  by (auto simp: np_where_def filter_empty_conv in_set_conv_nth)

lemma np_where_set: "set (np_where sample_map i) = {j. j < length sample_map \<and> sample_map ! j = i}"
  by (auto simp: np_where_def)

lemma np_where_sorted: "sorted (np_where sample_map i)" "distinct (np_where sample_map i)"
  by (simp_all add: np_where_def sorted_wrt_filter)

lemma broadcast_same [simp]: "broadcast (length xs) xs = xs"
  by (simp add: broadcast_def)

lemma tensor_slice_simps [simp]:
  "chunks (tensor_slice t s e) = slice (chunks t) s e"
  "n_tokens (tensor_slice t s e) = n_tokens t"
  by (simp_all add: tensor_slice_def)

lemma input_mask_expanded_simps [simp]:
  "chunks (input_mask_expanded m) = map (map real_of_int) (chunks m)"
  "n_tokens (input_mask_expanded m) = n_tokens m"
  by (simp_all add: input_mask_expanded_def)

lemma slice_subset: "set (slice xs s e) \<subseteq> set xs"
  unfolding slice_def using set_take_subset set_drop_subset by fast

lemma slice_length_eq: "length xs = length ys \<Longrightarrow> length (slice xs s e) = length (slice ys s e)"
  by (simp add: slice_def)

lemma slice_map: "slice (map f xs) s e = map f (slice xs s e)"
  by (simp add: slice_def take_map drop_map)

lemma well_shaped_slice: "well_shaped t \<Longrightarrow> well_shaped (tensor_slice t s e)"
  using slice_subset[of "chunks t" s e] by (auto simp: well_shaped_def list_all_iff)

lemma well_shaped_expanded: "well_shaped m \<Longrightarrow> well_shaped (input_mask_expanded m)"
  by (auto simp: well_shaped_def list_all_iff)

lemma sum_list_cong_set:
  fixes f g :: "'a \<Rightarrow> 'b::monoid_add"
  shows "(\<And>x. x \<in> set xs \<Longrightarrow> f x = g x) \<Longrightarrow> (\<Sum>x\<leftarrow>xs. f x) = (\<Sum>x\<leftarrow>xs. g x)"
  by (induction xs) auto

lemma sum_embeddings_same_shape:
  assumes "length (chunks E) = length (chunks M)" and "n_tokens E = n_tokens M"
    and "well_shaped E" and "well_shaped M"
  shows "sum_embeddings E M =
     Inr (\<Sum>(chunk, chunk_mask)\<leftarrow>zip (chunks E) (chunks M). \<Sum>(e, m)\<leftarrow>zip chunk chunk_mask. m *\<^sub>R e)"
proof -
  have inner: "(\<Sum>(e, m)\<leftarrow>zip (broadcast (n_tokens M) (fst p)) (broadcast (n_tokens M) (snd p)). m *\<^sub>R e) =
      (\<Sum>(e, m)\<leftarrow>zip (fst p) (snd p). m *\<^sub>R e)"
    if "p \<in> set (zip (chunks E) (chunks M))" for p
  proof -
    obtain a b where p: "p = (a, b)" by (cases p)
    from that have "fst p \<in> set (chunks E)" "snd p \<in> set (chunks M)"
      unfolding p by (auto dest: set_zip_leftD set_zip_rightD)
    then have "length (fst p) = n_tokens M" "length (snd p) = n_tokens M"
      using assms(2,3,4) by (auto simp: well_shaped_def list_all_iff)
    then show ?thesis by (simp add: broadcast_def)
  qed
  have "(\<Sum>p\<leftarrow>zip (chunks E) (chunks M).
           \<Sum>(e, m)\<leftarrow>zip (broadcast (n_tokens M) (fst p)) (broadcast (n_tokens M) (snd p)). m *\<^sub>R e) =
        (\<Sum>p\<leftarrow>zip (chunks E) (chunks M). \<Sum>(e, m)\<leftarrow>zip (fst p) (snd p). m *\<^sub>R e)"
    by (rule sum_list_cong_set) (rule inner)
  then show ?thesis
    using assms(1,2)
    by (simp add: sum_embeddings_def compatible_def broadcast_dim_def Let_def split_def
        broadcast_def)
qed

lemma sum_embeddings_Inl: "sum_embeddings E M = Inl e \<Longrightarrow> e = InvalidArgumentError"
  by (auto simp: sum_embeddings_def Let_def split: if_splits)

lemma sum_embeddings_total:
  "length (chunks E) = length (chunks M) \<Longrightarrow> n_tokens E = n_tokens M \<Longrightarrow>
     \<exists>v. sum_embeddings E M = Inr v"
  by (simp add: sum_embeddings_def compatible_def Let_def)

lemma pool_sample_IndexError_iff:
  "pool_sample token_embeddings input_mask sample_map i = Inl IndexError \<longleftrightarrow> i \<notin> set sample_map"
proof (cases "np_where sample_map i")
  case Nil
  then show ?thesis using np_where_Nil_iff[of sample_map i] by (simp add: pool_sample_def)
next
  case (Cons j js)
  then have occ: "i \<in> set sample_map" using np_where_Nil_iff[of sample_map i] by auto
  show ?thesis
  proof (cases "sum_embeddings (tensor_slice token_embeddings j (last (j # js) + 1))
      (tensor_slice input_mask j (last (j # js) + 1))")
    case (Inl e)
    then have "e = InvalidArgumentError" by (rule sum_embeddings_Inl)
    then show ?thesis using Inl occ by (simp add: pool_sample_def Cons Let_def del: last.simps)
  next
    case (Inr v)
    then show ?thesis using occ by (simp add: pool_sample_def Cons Let_def del: last.simps)
  qed
qed

lemma pool_sample_fails_missing:
  "i \<notin> set sample_map \<Longrightarrow> pool_sample token_embeddings input_mask sample_map i = Inl IndexError"
  by (simp add: pool_sample_IndexError_iff)

lemma pool_sample_Inr_occurs:
  "pool_sample token_embeddings input_mask sample_map i = Inr v \<Longrightarrow> i \<in> set sample_map"
  using pool_sample_fails_missing[of i sample_map token_embeddings input_mask] by auto

lemma pool_sample_total:
  assumes "i \<in> set sample_map"
    and "length (chunks token_embeddings) = length (chunks input_mask)"
    and "n_tokens token_embeddings = n_tokens input_mask"
  shows "\<exists>v. pool_sample token_embeddings input_mask sample_map i = Inr v"
proof -
  from assms(1) obtain j js where idx: "np_where sample_map i = j # js"
    using np_where_Nil_iff[of sample_map i] by (cases "np_where sample_map i") auto
  obtain v where "sum_embeddings (tensor_slice token_embeddings j (last (j # js) + 1))
      (tensor_slice input_mask j (last (j # js) + 1)) = Inr v"
    using sum_embeddings_total[of "tensor_slice token_embeddings j (last (j # js) + 1)"
        "tensor_slice input_mask j (last (j # js) + 1)"] assms(3)
      slice_length_eq[OF assms(2), of j "last (j # js) + 1"]
    by (auto simp del: last.simps)
  then show ?thesis
    by (simp add: pool_sample_def idx Let_def del: last.simps)
qed

lemma pool_samples_Inl:
  "pool_samples token_embeddings input_mask sample_map is = Inl e \<Longrightarrow>
     \<exists>i \<in> set is. pool_sample token_embeddings input_mask sample_map i = Inl e"
  by (induction "is" arbitrary: e) (auto split: sum.splits)

lemma pool_samples_fails:
  "\<exists>i \<in> set is. \<exists>e. pool_sample token_embeddings input_mask sample_map i = Inl e \<Longrightarrow>
     \<exists>e. pool_samples token_embeddings input_mask sample_map is = Inl e"
proof (induction "is")
  case Nil
  then show ?case by simp
next
  case (Cons a rest)
  show ?case
  proof (cases "pool_sample token_embeddings input_mask sample_map a")
    case (Inl e)
    then show ?thesis by simp
  next
    case (Inr v)
    with Cons.prems have "\<exists>i \<in> set rest. \<exists>e. pool_sample token_embeddings input_mask sample_map i = Inl e"
      by auto
    from Cons.IH[OF this] Inr show ?thesis by auto
  qed
qed

lemma pool_samples_Inr:
  "pool_samples token_embeddings input_mask sample_map is = Inr vs \<Longrightarrow>
     length vs = length is \<and>
     (\<forall>k < length is. pool_sample token_embeddings input_mask sample_map (is ! k) = Inr (vs ! k))"
proof (induction "is" arbitrary: vs)
  case Nil
  then show ?case by simp
next
  case (Cons i rest)
  then show ?case
    by (auto split: sum.splits simp: nth_Cons')
qed

lemma pool_samples_all:
  "\<forall>i \<in> set is. pool_sample token_embeddings input_mask sample_map i = Inr (f i) \<Longrightarrow>
     pool_samples token_embeddings input_mask sample_map is = Inr (map f is)"
  by (induction "is") auto

lemma pool_samples_total:
  "\<forall>i \<in> set is. \<exists>v. pool_sample token_embeddings input_mask sample_map i = Inr v \<Longrightarrow>
     \<exists>vs. pool_samples token_embeddings input_mask sample_map is = Inr vs"
  by (induction "is") auto

text \<open>
  The tokenizer numbers the chunks of a batch text by text, so \<^verbatim>\<open>sample_map\<close> is
  ascending. The positions of the chunks of one sample are then an interval, and the
  slice from the first to the last of them holds exactly the sample's chunks.
\<close>

lemma slice_upt: "e \<le> length xs \<Longrightarrow> slice xs s e = map ((!) xs) [s..<e]"
proof -
  assume e: "e \<le> length xs"
  have "map ((!) xs) [s..<e] = take (e - s) (drop s xs)"
  proof (rule nth_equalityI)
    show "length (map ((!) xs) [s..<e]) = length (take (e - s) (drop s xs))"
      using e by auto
  next
    fix i assume "i < length (map ((!) xs) [s..<e])"
    then show "map ((!) xs) [s..<e] ! i = take (e - s) (drop s xs) ! i"
      using e by auto
  qed
  then show ?thesis by (simp add: slice_def)
qed

lemma np_where_interval:
  assumes "sorted sample_map" and "np_where sample_map i \<noteq> []"
  shows "np_where sample_map i = [hd (np_where sample_map i)..<last (np_where sample_map i) + 1]"
    and "last (np_where sample_map i) + 1 \<le> length sample_map"
proof -
  define idx where "idx = np_where sample_map i"
  define j where "j = hd idx"
  define l where "l = last idx"
  have ne: "idx \<noteq> []" using assms(2) by (simp add: idx_def)
  have srt: "sorted idx" and dst: "distinct idx"
    using np_where_sorted[of sample_map i] by (simp_all add: idx_def)
  have "j \<in> set idx" and "l \<in> set idx"
    using ne by (simp_all add: j_def l_def)
  then have j: "j < length sample_map" "sample_map ! j = i"
    and l: "l < length sample_map" "sample_map ! l = i"
    by (auto simp: idx_def np_where_set)
  show "last (np_where sample_map i) + 1 \<le> length sample_map"
    using l(1) by (simp add: l_def idx_def)
  have lower: "j \<le> k" if "k \<in> set idx" for k
  proof -
    from that obtain n where n: "n < length idx" "idx ! n = k"
      by (auto simp: in_set_conv_nth)
    have "idx ! 0 \<le> idx ! n"
      using srt n(1) by (intro sorted_nth_mono) auto
    then show ?thesis using n(2) ne by (simp add: j_def hd_conv_nth)
  qed
  have upper: "k \<le> l" if "k \<in> set idx" for k
  proof -
    from that obtain n where n: "n < length idx" "idx ! n = k"
      by (auto simp: in_set_conv_nth)
    have "idx ! n \<le> idx ! (length idx - 1)"
      using srt n(1) by (intro sorted_nth_mono) auto
    then show ?thesis using n(2) ne by (simp add: l_def last_conv_nth)
  qed
  have "set idx = {j..<l + 1}"
  proof (intro equalityI subsetI)
    fix k assume "k \<in> set idx"
    then show "k \<in> {j..<l + 1}" using lower upper by fastforce
  next
    fix k assume "k \<in> {j..<l + 1}"
    then have k: "j \<le> k" "k \<le> l" by auto
    then have "sample_map ! j \<le> sample_map ! k" "sample_map ! k \<le> sample_map ! l"
      using assms(1) l(1) by (auto intro: sorted_nth_mono)
    then have "sample_map ! k = i" using j l by simp
    then show "k \<in> set idx" using k l(1) by (simp add: idx_def np_where_set)
  qed
  then have "set idx = set [j..<l + 1]" by (simp only: set_upt)
  then have "idx = [j..<l + 1]"
    using srt dst sorted_upt[of j "l + 1"] distinct_upt[of j "l + 1"]
    by (intro sorted_distinct_set_unique)
  then show "np_where sample_map i = [hd (np_where sample_map i)..<last (np_where sample_map i) + 1]"
    by (simp only: idx_def j_def l_def)
qed

lemma slice_np_where:
  assumes "sorted sample_map" and "np_where sample_map i \<noteq> []"
    and "length xs = length sample_map"
  shows "slice xs (hd (np_where sample_map i)) (last (np_where sample_map i) + 1) =
           map ((!) xs) (np_where sample_map i)"
proof -
  have "slice xs (hd (np_where sample_map i)) (last (np_where sample_map i) + 1) =
      map ((!) xs) [hd (np_where sample_map i)..<last (np_where sample_map i) + 1]"
    using np_where_interval(2)[OF assms(1,2)] assms(3) by (intro slice_upt) simp
  then show ?thesis using np_where_interval(1)[OF assms(1,2)] by simp
qed


lemma zip_sum_expanded:
  fixes A :: "('v::real_vector) list list"
  shows "(\<Sum>(chunk, chunk_mask)\<leftarrow>zip A (map (map real_of_int) B).
            \<Sum>(e, m)\<leftarrow>zip chunk chunk_mask. m *\<^sub>R e) =
         (\<Sum>(chunk, chunk_mask)\<leftarrow>zip A B.
            \<Sum>(e, m)\<leftarrow>zip chunk chunk_mask. real_of_int m *\<^sub>R e)"
  by (simp add: zip_map2 split_def comp_def)

lemma mask_sum_expanded:
  "(\<Sum>chunk_mask\<leftarrow>map (map real_of_int) B. \<Sum>m\<leftarrow>chunk_mask. m) =
     (\<Sum>chunk_mask\<leftarrow>B. \<Sum>m\<leftarrow>chunk_mask. real_of_int m)"
  by (simp add: comp_def)

lemma pool_sample_unfold:
  assumes "np_where sample_map i \<noteq> []"
  shows "pool_sample token_embeddings input_mask sample_map i =
     (case sum_embeddings
             (tensor_slice token_embeddings (hd (np_where sample_map i))
                (last (np_where sample_map i) + 1))
             (tensor_slice input_mask (hd (np_where sample_map i))
                (last (np_where sample_map i) + 1)) of
        Inl e \<Rightarrow> Inl e
      | Inr summed \<Rightarrow>
          Inr (summed /\<^sub>R sum_mask (tensor_slice input_mask (hd (np_where sample_map i))
                 (last (np_where sample_map i) + 1))))"
proof -
  obtain j js where idx: "np_where sample_map i = j # js"
    using assms by (cases "np_where sample_map i") auto
  show ?thesis
    by (simp only: pool_sample_def idx Let_def list.case list.sel)
qed

text \<open>
  With tensors of one shape nothing is broadcast and nothing raised: the body of the
  loop divides the masked sum over the slice by the clipped sum of the mask entries of
  the slice.
\<close>

lemma pool_sample_same_shape:
  fixes token_embeddings :: "('v::real_vector) tensor"
  assumes "np_where sample_map i \<noteq> []"
    and "length (chunks token_embeddings) = length (chunks att_mask)"
    and "n_tokens token_embeddings = n_tokens att_mask"
    and "well_shaped token_embeddings" and "well_shaped att_mask"
  shows "pool_sample token_embeddings (input_mask_expanded att_mask) sample_map i =
     Inr ((\<Sum>(chunk, chunk_mask)\<leftarrow>zip
               (slice (chunks token_embeddings) (hd (np_where sample_map i))
                  (last (np_where sample_map i) + 1))
               (slice (chunks att_mask) (hd (np_where sample_map i))
                  (last (np_where sample_map i) + 1)).
             \<Sum>(e, m)\<leftarrow>zip chunk chunk_mask. real_of_int m *\<^sub>R e)
          /\<^sub>R max (\<Sum>chunk_mask\<leftarrow>slice (chunks att_mask) (hd (np_where sample_map i))
                           (last (np_where sample_map i) + 1).
                      \<Sum>m\<leftarrow>chunk_mask. real_of_int m) (1 / 10 ^ 7))"
proof -
  let ?s = "hd (np_where sample_map i)"
  let ?e = "last (np_where sample_map i) + 1"
  let ?E = "tensor_slice token_embeddings ?s ?e"
  let ?M = "tensor_slice (input_mask_expanded att_mask) ?s ?e"
  have l: "length (chunks ?E) = length (chunks ?M)"
    using assms(2) by (simp add: slice_def)
  have t: "n_tokens ?E = n_tokens ?M"
    using assms(3) by simp
  have w: "well_shaped ?E" "well_shaped ?M"
    using assms(4,5) by (simp_all add: well_shaped_slice well_shaped_expanded)
  have num: "sum_embeddings ?E ?M =
      Inr (\<Sum>(chunk, chunk_mask)\<leftarrow>zip (slice (chunks token_embeddings) ?s ?e)
               (slice (chunks att_mask) ?s ?e).
             \<Sum>(e, m)\<leftarrow>zip chunk chunk_mask. real_of_int m *\<^sub>R e)"
    unfolding sum_embeddings_same_shape[OF l t w]
    by (simp only: tensor_slice_simps input_mask_expanded_simps slice_map zip_sum_expanded)
  have den: "sum_mask ?M =
      max (\<Sum>chunk_mask\<leftarrow>slice (chunks att_mask) ?s ?e. \<Sum>m\<leftarrow>chunk_mask. real_of_int m)
        (1 / 10 ^ 7)"
    unfolding sum_mask_def clip_by_value_def
    by (simp only: tensor_slice_simps input_mask_expanded_simps slice_map mask_sum_expanded)
  show ?thesis
    unfolding pool_sample_unfold[OF assms(1)] num den by simp
qed

lemma mean_pooling_Inr:
  assumes "mean_pooling model_output att_mask sample_map = Inr batch_result"
  shows "length batch_result = BATCH_SIZE \<and> (\<forall>i < BATCH_SIZE. i \<in> set sample_map) \<and>
    (\<forall>i < BATCH_SIZE.
       pool_sample (fst model_output) (input_mask_expanded att_mask) sample_map i =
         Inr (batch_result ! i))"
proof -
  from assms have p: "pool_samples (fst model_output) (input_mask_expanded att_mask) sample_map
      [0..<BATCH_SIZE] = Inr batch_result"
    by (simp add: mean_pooling_def)
  from pool_samples_Inr[OF p] have l: "length batch_result = BATCH_SIZE"
    and n: "\<forall>i < BATCH_SIZE.
       pool_sample (fst model_output) (input_mask_expanded att_mask) sample_map i =
         Inr (batch_result ! i)"
    by auto
  from n have "\<forall>i < BATCH_SIZE. i \<in> set sample_map"
    by (auto dest: pool_sample_Inr_occurs)
  with l n show ?thesis by simp
qed

lemma mean_pooling_Inl:
  assumes "mean_pooling model_output att_mask sample_map = Inl e"
  shows "\<exists>i < BATCH_SIZE.
    pool_sample (fst model_output) (input_mask_expanded att_mask) sample_map i = Inl e"
  using assms pool_samples_Inl[of "fst model_output" "input_mask_expanded att_mask" sample_map
      "[0..<BATCH_SIZE]" e]
  by (auto simp: mean_pooling_def)

lemma mean_pooling_fails_missing:
  assumes "i < BATCH_SIZE" and "i \<notin> set sample_map"
  shows "\<exists>e. mean_pooling model_output att_mask sample_map = Inl e"
proof -
  have "pool_sample (fst model_output) (input_mask_expanded att_mask) sample_map i = Inl IndexError"
    using assms(2) by (rule pool_sample_fails_missing)
  then have "\<exists>i \<in> set [0..<BATCH_SIZE]. \<exists>e.
      pool_sample (fst model_output) (input_mask_expanded att_mask) sample_map i = Inl e"
    using assms(1) by auto
  from pool_samples_fails[OF this] show ?thesis by (simp add: mean_pooling_def)
qed

lemma mean_pooling_same_shape_error:
  assumes "length (chunks (fst model_output)) = length (chunks att_mask)"
    and "n_tokens (fst model_output) = n_tokens att_mask"
    and "mean_pooling model_output att_mask sample_map = Inl e"
  shows "e = IndexError"
proof -
  from mean_pooling_Inl[OF assms(3)] obtain i where
    i: "pool_sample (fst model_output) (input_mask_expanded att_mask) sample_map i = Inl e"
    by blast
  show ?thesis
  proof (cases "i \<in> set sample_map")
    case True
    from pool_sample_total[OF True, of "fst model_output" "input_mask_expanded att_mask"]
      assms(1,2) i
    show ?thesis by simp
  next
    case False
    from pool_sample_fails_missing[OF False, of "fst model_output" "input_mask_expanded att_mask"] i
    show ?thesis by simp
  qed
qed

lemma mean_pooling_same_shape_total:
  assumes "length (chunks (fst model_output)) = length (chunks att_mask)"
    and "n_tokens (fst model_output) = n_tokens att_mask"
    and "\<forall>i < BATCH_SIZE. i \<in> set sample_map"
  shows "\<exists>batch_result. mean_pooling model_output att_mask sample_map = Inr batch_result \<and>
    length batch_result = BATCH_SIZE"
proof (cases "mean_pooling model_output att_mask sample_map")
  case (Inl e)
  from mean_pooling_Inl[OF Inl] obtain i where "i < BATCH_SIZE"
    and i: "pool_sample (fst model_output) (input_mask_expanded att_mask) sample_map i = Inl e"
    by blast
  with assms(3) have "i \<in> set sample_map" by simp
  from pool_sample_total[OF this, of "fst model_output" "input_mask_expanded att_mask"]
    assms(1,2) i
  show ?thesis by simp
next
  case (Inr batch_result)
  with mean_pooling_Inr[OF Inr] show ?thesis by simp
qed

text \<open>
  Claim C8. \<^verbatim>\<open>mean_pooling\<close> returns only if every sample index below \<^verbatim>\<open>BATCH_SIZE\<close>
  occurs in \<^verbatim>\<open>sample_map\<close>. If every index occurs, then for each of them the array
  \<^verbatim>\<open>np.where(sample_map==i)[0]\<close> is non-empty, its first and last entries are
  positions of \<^verbatim>\<open>sample_map\<close>, and IndexError is not raised; when moreover the token
  embeddings and the attention mask have the same number of chunks and of tokens,
  \<^verbatim>\<open>mean_pooling\<close> returns \<^verbatim>\<open>BATCH_SIZE\<close> vectors (with other shapes the product may
  raise InvalidArgumentError). If some index below \<^verbatim>\<open>BATCH_SIZE\<close> does not occur (a
  batch of fewer than \<^verbatim>\<open>BATCH_SIZE\<close> texts), that array is empty for it and
  \<^verbatim>\<open>mean_pooling\<close> raises an exception, which is IndexError when the two tensors have
  the same shape.
\<close>

theorem mean_pooling_total_iff:
  "((\<exists>batch_result. mean_pooling model_output att_mask sample_map = Inr batch_result) \<longrightarrow>
      (\<forall>i < BATCH_SIZE. i \<in> set sample_map)) \<and>
   ((\<forall>i < BATCH_SIZE. i \<in> set sample_map) \<longrightarrow>
      (\<forall>i < BATCH_SIZE. np_where sample_map i \<noteq> [] \<and>
         hd (np_where sample_map i) < length sample_map \<and>
         last (np_where sample_map i) < length sample_map) \<and>
      mean_pooling model_output att_mask sample_map \<noteq> Inl IndexError \<and>
      (length (chunks (fst model_output)) = length (chunks att_mask) \<and>
       n_tokens (fst model_output) = n_tokens att_mask \<longrightarrow>
         (\<exists>batch_result. mean_pooling model_output att_mask sample_map = Inr batch_result \<and>
            length batch_result = BATCH_SIZE))) \<and>
   ((\<exists>i < BATCH_SIZE. i \<notin> set sample_map) \<longrightarrow>
      (\<exists>i < BATCH_SIZE. np_where sample_map i = []) \<and>
      (\<exists>e. mean_pooling model_output att_mask sample_map = Inl e) \<and>
      (length (chunks (fst model_output)) = length (chunks att_mask) \<and>
       n_tokens (fst model_output) = n_tokens att_mask \<longrightarrow>
         mean_pooling model_output att_mask sample_map = Inl IndexError))"
proof (intro conjI impI)
  assume "\<exists>batch_result. mean_pooling model_output att_mask sample_map = Inr batch_result"
  then show "\<forall>i < BATCH_SIZE. i \<in> set sample_map"
    using mean_pooling_Inr by blast
next
  assume all: "\<forall>i < BATCH_SIZE. i \<in> set sample_map"
  show "\<forall>i < BATCH_SIZE. np_where sample_map i \<noteq> [] \<and>
         hd (np_where sample_map i) < length sample_map \<and>
         last (np_where sample_map i) < length sample_map"
  proof (intro allI impI)
    fix i assume "i < BATCH_SIZE"
    with all have ne: "np_where sample_map i \<noteq> []"
      using np_where_Nil_iff[of sample_map i] by simp
    then have "hd (np_where sample_map i) \<in> set (np_where sample_map i)"
      "last (np_where sample_map i) \<in> set (np_where sample_map i)"
      by simp_all
    then show "np_where sample_map i \<noteq> [] \<and>
         hd (np_where sample_map i) < length sample_map \<and>
         last (np_where sample_map i) < length sample_map"
      using ne unfolding np_where_set by simp
  qed
  show "mean_pooling model_output att_mask sample_map \<noteq> Inl IndexError"
  proof
    assume "mean_pooling model_output att_mask sample_map = Inl IndexError"
    from mean_pooling_Inl[OF this] obtain i where "i < BATCH_SIZE"
      "pool_sample (fst model_output) (input_mask_expanded att_mask) sample_map i = Inl IndexError"
      by blast
    with all show False by (simp add: pool_sample_IndexError_iff)
  qed
  show "\<exists>batch_result. mean_pooling model_output att_mask sample_map = Inr batch_result \<and>
      length batch_result = BATCH_SIZE"
    if "length (chunks (fst model_output)) = length (chunks att_mask) \<and>
       n_tokens (fst model_output) = n_tokens att_mask"
    using that all by (intro mean_pooling_same_shape_total) simp_all
next
  assume ex: "\<exists>i < BATCH_SIZE. i \<notin> set sample_map"
  show "\<exists>i < BATCH_SIZE. np_where sample_map i = []"
    using ex np_where_Nil_iff[of sample_map] by auto
  show e: "\<exists>e. mean_pooling model_output att_mask sample_map = Inl e"
    using ex mean_pooling_fails_missing by blast
  show "mean_pooling model_output att_mask sample_map = Inl IndexError"
    if "length (chunks (fst model_output)) = length (chunks att_mask) \<and>
       n_tokens (fst model_output) = n_tokens att_mask"
    using that e mean_pooling_same_shape_error by blast
qed

lemma example_covers: "\<forall>i < BATCH_SIZE. i \<in> set example_sample_map"
  by (simp add: example_sample_map_def)

lemma example_shapes:
  "length (chunks example_token_embeddings) = length (chunks example_attention_mask)"
  "n_tokens example_token_embeddings = n_tokens example_attention_mask"
  "length (chunks example_token_embeddings) = length example_sample_map"
  "length (chunks example_attention_mask) = length example_sample_map"
  "well_shaped example_token_embeddings" "well_shaped example_attention_mask"
  by (simp_all add: example_sample_map_def example_token_embeddings_def
      example_attention_mask_def BATCH_SIZE_def well_shaped_def list_all_iff)

theorem mean_pooling_total_iff_witness:
  "(\<exists>batch_result.
      mean_pooling (example_token_embeddings, ()) example_attention_mask example_sample_map
        = Inr batch_result \<and> length batch_result = BATCH_SIZE) \<and>
   mean_pooling (short_token_embeddings, ()) short_attention_mask short_sample_map
     = Inl IndexError"
proof -
  have short: "\<exists>i < BATCH_SIZE. i \<notin> set short_sample_map"
    by (rule exI[of _ 2]) (simp add: BATCH_SIZE_def short_sample_map_def)
  have short_shape: "length (chunks (fst (short_token_embeddings, ()))) =
      length (chunks short_attention_mask) \<and>
      n_tokens (fst (short_token_embeddings, ())) = n_tokens short_attention_mask"
    by (simp add: short_token_embeddings_def short_attention_mask_def)
  have full_shape: "length (chunks (fst (example_token_embeddings, ()))) =
      length (chunks example_attention_mask) \<and>
      n_tokens (fst (example_token_embeddings, ())) = n_tokens example_attention_mask"
    using example_shapes by simp
  show ?thesis
    using mean_pooling_total_iff[where sample_map = example_sample_map
        and model_output = "(example_token_embeddings, ())"
        and att_mask = example_attention_mask]
      mean_pooling_total_iff[where sample_map = short_sample_map
        and model_output = "(short_token_embeddings, ())"
        and att_mask = short_attention_mask]
      example_covers short short_shape full_shape
    by blast
qed

lemma zip_nths_sum:
  fixes f :: "'a \<Rightarrow> 'b \<Rightarrow> 'c::monoid_add"
  shows "(\<Sum>(a, b)\<leftarrow>zip (map ((!) A) idx) (map ((!) B) idx). f a b) = (\<Sum>j\<leftarrow>idx. f (A ! j) (B ! j))"
  by (induction idx) simp_all

lemma real_sum_list: "(\<Sum>m\<leftarrow>ms. real_of_int m) = real_of_int (sum_list ms)"
  by (induction ms) auto

lemma real_sum_list_nested:
  "(\<Sum>j\<leftarrow>idx. \<Sum>m\<leftarrow>B ! j. real_of_int m) = real_of_int (\<Sum>j\<leftarrow>idx. sum_list (B ! j))"
  by (induction idx) (simp_all add: real_sum_list)

lemma pool_sample_is_masked_average:
  fixes token_embeddings :: "('v::real_vector) tensor"
  assumes "sorted sample_map"
    and "well_shaped token_embeddings" and "well_shaped att_mask"
    and "n_tokens token_embeddings = n_tokens att_mask"
    and "length (chunks token_embeddings) = length sample_map"
    and "length (chunks att_mask) = length sample_map"
    and "i \<in> set sample_map"
    and "0 < (\<Sum>j\<leftarrow>np_where sample_map i. sum_list (chunks att_mask ! j))"
  shows "pool_sample token_embeddings (input_mask_expanded att_mask) sample_map i =
           Inr (masked_average token_embeddings att_mask sample_map i)"
proof -
  have ne: "np_where sample_map i \<noteq> []"
    using assms(7) np_where_Nil_iff[of sample_map i] by simp
  let ?s = "hd (np_where sample_map i)"
  let ?e = "last (np_where sample_map i) + 1"
  have s1: "slice (chunks token_embeddings) ?s ?e =
      map ((!) (chunks token_embeddings)) (np_where sample_map i)"
    using slice_np_where[OF assms(1) ne assms(5)] .
  have s2: "slice (chunks att_mask) ?s ?e = map ((!) (chunks att_mask)) (np_where sample_map i)"
    using slice_np_where[OF assms(1) ne assms(6)] .
  have "1 \<le> (\<Sum>j\<leftarrow>np_where sample_map i. sum_list (chunks att_mask ! j))"
    using assms(8) by simp
  then have "(1::real) \<le> real_of_int (\<Sum>j\<leftarrow>np_where sample_map i. sum_list (chunks att_mask ! j))"
    by linarith
  then have "(1::real) \<le> (\<Sum>j\<leftarrow>np_where sample_map i. \<Sum>m\<leftarrow>chunks att_mask ! j. real_of_int m)"
    by (simp only: real_sum_list_nested)
  then have den: "max (\<Sum>j\<leftarrow>np_where sample_map i. \<Sum>m\<leftarrow>chunks att_mask ! j. real_of_int m)
      (1 / 10 ^ 7) = (\<Sum>j\<leftarrow>np_where sample_map i. \<Sum>m\<leftarrow>chunks att_mask ! j. real_of_int m)"
    by simp
  have l: "length (chunks token_embeddings) = length (chunks att_mask)"
    using assms(5,6) by simp
  show ?thesis
    unfolding pool_sample_same_shape[OF ne l assms(4) assms(2) assms(3)] s1 s2
      masked_average_def zip_nths_sum
    using den by (simp add: comp_def)
qed

lemma example_sorted: "sorted example_sample_map"
  by (simp add: example_sample_map_def)

lemma example_where_0: "np_where example_sample_map 0 = [0, 1]"
proof -
  have "filter (\<lambda>j. (0 # [0..<n]) ! j = 0) [0..<Suc n] = (if n = 0 then [0] else [0, 1])" for n
  proof -
    have "[0..<Suc n] = 0 # map Suc [0..<n]"
      by (simp add: upt_conv_Cons map_Suc_upt del: upt_Suc)
    moreover have "filter ((\<lambda>j. (0 # [0..<n]) ! j = 0) \<circ> Suc) [0..<n] = (if n = 0 then [] else [0])"
    proof -
      have "filter ((\<lambda>j. (0 # [0..<n]) ! j = 0) \<circ> Suc) [0..<n] = filter (\<lambda>j. j = 0) [0..<n]"
        by (intro filter_cong) auto
      also have "\<dots> = (if n = 0 then [] else [0])"
        by (induction n) auto
      finally show ?thesis .
    qed
    ultimately show ?thesis by (simp add: filter_map del: upt_Suc)
  qed
  from this[of BATCH_SIZE] show ?thesis
    by (simp add: np_where_def example_sample_map_def BATCH_SIZE_def del: upt_Suc)
qed

lemma example_average_0:
  "masked_average example_token_embeddings example_attention_mask example_sample_map 0 = 4"
  by (simp add: masked_average_def example_where_0 example_token_embeddings_def
      example_attention_mask_def)

lemma sum_list_positive:
  fixes f :: "'a \<Rightarrow> int"
  shows "xs \<noteq> [] \<Longrightarrow> \<forall>x \<in> set xs. 0 < f x \<Longrightarrow> 0 < (\<Sum>x\<leftarrow>xs. f x)"
proof (induction xs)
  case Nil
  then show ?case by simp
next
  case (Cons a xs)
  then show ?case by (cases "xs = []") (auto intro: add_pos_pos)
qed

lemma example_mask_positive:
  "\<forall>i < BATCH_SIZE.
     0 < (\<Sum>j\<leftarrow>np_where example_sample_map i. sum_list (chunks example_attention_mask ! j))"
proof (intro allI impI)
  fix i assume "i < BATCH_SIZE"
  then have ne: "np_where example_sample_map i \<noteq> []"
    using example_covers np_where_Nil_iff[of example_sample_map i] by simp
  have pos: "0 < sum_list (chunks example_attention_mask ! j)"
    if "j < length example_sample_map" for j
    using that
    by (cases j; cases "j - 1")
       (auto simp: example_attention_mask_def example_sample_map_def nth_Cons')
  have "\<forall>j \<in> set (np_where example_sample_map i).
      0 < sum_list (chunks example_attention_mask ! j)"
    using pos by (simp add: np_where_set)
  then show "0 < (\<Sum>j\<leftarrow>np_where example_sample_map i.
      sum_list (chunks example_attention_mask ! j))"
    using ne by (intro sum_list_positive)
qed

text \<open>
  Claim C3, amended. Take a batch in which every sample index below \<^verbatim>\<open>BATCH_SIZE\<close>
  occurs in \<^verbatim>\<open>sample_map\<close>, with \<^verbatim>\<open>sample_map\<close> ascending (as the tokenizer produces
  it), the token embeddings and the attention mask tensors with the same number of
  tokens per chunk and one chunk per entry of \<^verbatim>\<open>sample_map\<close>, and the attention-mask
  entries of every sample summing to a positive number. Then \<^verbatim>\<open>mean_pooling\<close> returns
  \<^verbatim>\<open>BATCH_SIZE\<close> vectors, and the vector of sample \<open>i\<close> is the sum over the sample's
  chunks of the token embeddings times their attention-mask entries, divided by the
  sum of those attention-mask entries.
\<close>

theorem mean_pooling_masked_average:
  fixes model_output :: "('v::real_vector) tensor \<times> 'p"
  assumes "sorted sample_map"
    and "well_shaped (fst model_output)" and "well_shaped att_mask"
    and "n_tokens (fst model_output) = n_tokens att_mask"
    and "length (chunks (fst model_output)) = length sample_map"
    and "length (chunks att_mask) = length sample_map"
    and "\<forall>i < BATCH_SIZE. i \<in> set sample_map"
    and "\<forall>i < BATCH_SIZE.
           0 < (\<Sum>j\<leftarrow>np_where sample_map i. sum_list (chunks att_mask ! j))"
  shows "\<exists>batch_result.
           mean_pooling model_output att_mask sample_map = Inr batch_result \<and>
           length batch_result = BATCH_SIZE \<and>
           (\<forall>i < BATCH_SIZE.
              batch_result ! i = masked_average (fst model_output) att_mask sample_map i)"
proof -
  have "\<forall>i \<in> set [0..<BATCH_SIZE].
      pool_sample (fst model_output) (input_mask_expanded att_mask) sample_map i =
        Inr (masked_average (fst model_output) att_mask sample_map i)"
    using assms by (auto intro: pool_sample_is_masked_average)
  then have "mean_pooling model_output att_mask sample_map =
      Inr (map (masked_average (fst model_output) att_mask sample_map) [0..<BATCH_SIZE])"
    unfolding mean_pooling_def by (rule pool_samples_all)
  then show ?thesis by simp
qed

theorem mean_pooling_masked_average_witness:
  "\<exists>batch_result.
      mean_pooling (example_token_embeddings, ()) example_attention_mask example_sample_map
        = Inr batch_result \<and>
      length batch_result = BATCH_SIZE \<and> batch_result ! 0 = 4"
  using mean_pooling_masked_average[where sample_map = example_sample_map
      and model_output = "(example_token_embeddings, ())"
      and att_mask = example_attention_mask, OF example_sorted _ example_shapes(6) _ _
      example_shapes(4) example_covers example_mask_positive]
  by (auto simp: example_shapes example_average_0 BATCH_SIZE_def)

text \<open>
  Claim C3 as stated, for every batch, fails on a batch of two texts, the first cut into
  two chunks: \<^verbatim>\<open>mean_pooling\<close> raises IndexError at sample 2 and returns no vector
  for the samples 0 and 1, whose masked averages are 4 and 1.
\<close>

theorem mean_pooling_short_batch_counterexample:
  "mean_pooling (short_token_embeddings, ()) short_attention_mask short_sample_map
     = Inl IndexError \<and>
   masked_average short_token_embeddings short_attention_mask short_sample_map 0 = 4 \<and>
   masked_average short_token_embeddings short_attention_mask short_sample_map 1 = 1"
proof -
  have "2 < BATCH_SIZE" "(2::nat) \<notin> set short_sample_map"
    by (simp_all add: BATCH_SIZE_def short_sample_map_def)
  then obtain e where e: "mean_pooling (short_token_embeddings, ()) short_attention_mask
      short_sample_map = Inl e"
    using mean_pooling_fails_missing by blast
  have "e = IndexError"
    by (rule mean_pooling_same_shape_error[OF _ _ e])
      (simp_all add: short_token_embeddings_def short_attention_mask_def)
  moreover have "np_where short_sample_map 0 = [0, 1]" "np_where short_sample_map 1 = [2]"
    by (simp_all add: np_where_def short_sample_map_def upt_rec)
  then have "masked_average short_token_embeddings short_attention_mask short_sample_map 0 = 4"
    "masked_average short_token_embeddings short_attention_mask short_sample_map 1 = 1"
    by (simp_all add: masked_average_def short_token_embeddings_def short_attention_mask_def)
  ultimately show ?thesis using e by simp
qed

text \<open>
  The agreement of the two tensors in their number of tokens is needed. When the
  encoder's output has one token per chunk and the attention mask two, the product
  broadcasts the token vector over both mask entries: \<^verbatim>\<open>mean_pooling\<close> returns
  \<open>(3 + 3) / 2 = 3\<close> for every sample, where the masked average pairs the one token
  vector with the first mask entry only. With two tokens against three the product
  raises InvalidArgumentError.
\<close>

lemma np_where_upt: "i < n \<Longrightarrow> np_where [0..<n] i = [i]"
proof -
  assume i: "i < n"
  have "filter (\<lambda>j. [0..<n] ! j = i) [0..<n] = filter (\<lambda>j. j = i) [0..<n]"
    by (intro filter_cong) auto
  also have "\<dots> = [i]"
    using i
  proof (induction n)
    case 0
    then show ?case by simp
  next
    case (Suc n)
    then show ?case by (cases "i = n") (auto simp: filter_empty_conv)
  qed
  finally show ?thesis by (simp add: np_where_def)
qed

lemma slice_replicate_one: "i < n \<Longrightarrow> slice (replicate n x) i (Suc i) = [x]"
  by (simp add: slice_def min_def)

lemma slice_map_upt_one: "i < n \<Longrightarrow> slice (map f [0..<n]) i (Suc i) = [f i]"
proof -
  assume i: "i < n"
  have "take 1 (drop i (map f [0..<n])) = [f i]"
    using i by (simp add: take_Suc_conv_app_nth drop_map take_map hd_drop_conv_nth
        list_eq_iff_nth_eq)
  then show ?thesis by (simp add: slice_def)
qed

lemma broadcast_pool:
  assumes "i < BATCH_SIZE"
  shows "pool_sample broadcast_token_embeddings (input_mask_expanded broadcast_attention_mask)
           [0..<BATCH_SIZE] i = Inr 3"
proof -
  have w: "np_where [0..<BATCH_SIZE] i = [i]" using assms by (rule np_where_upt)
  have ne: "np_where [0..<BATCH_SIZE] i \<noteq> []" using w by simp
  show ?thesis
    unfolding pool_sample_unfold[OF ne] w
    using assms
    by (simp add: sum_embeddings_def sum_mask_def clip_by_value_def compatible_def
        broadcast_dim_def broadcast_def broadcast_token_embeddings_def
        broadcast_attention_mask_def slice_replicate_one numeral_2_eq_2)
qed

lemma broadcast_mean_pooling:
  "mean_pooling (broadcast_token_embeddings, ()) broadcast_attention_mask [0..<BATCH_SIZE] =
     Inr (replicate BATCH_SIZE 3)"
proof -
  have "\<forall>i \<in> set [0..<BATCH_SIZE].
      pool_sample broadcast_token_embeddings (input_mask_expanded broadcast_attention_mask)
        [0..<BATCH_SIZE] i = Inr ((\<lambda>_. 3) i)"
    by (simp add: broadcast_pool)
  then have "mean_pooling (broadcast_token_embeddings, ()) broadcast_attention_mask
      [0..<BATCH_SIZE] = Inr (map (\<lambda>_. 3) [0..<BATCH_SIZE])"
    unfolding mean_pooling_def fst_conv by (rule pool_samples_all)
  then show ?thesis by (simp add: map_replicate_const)
qed

lemma broadcast_average:
  "masked_average broadcast_token_embeddings broadcast_attention_mask [0..<BATCH_SIZE] 0 = 3 / 2"
proof -
  have "np_where [0..<BATCH_SIZE] 0 = [0]"
    by (rule np_where_upt) (simp add: BATCH_SIZE_def)
  then show ?thesis
    by (simp add: masked_average_def broadcast_token_embeddings_def
        broadcast_attention_mask_def BATCH_SIZE_def)
qed

lemma mismatched_tokens_raise:
  "mean_pooling (\<lparr>n_tokens = 2, chunks = replicate BATCH_SIZE [1, 1 :: real]\<rparr>, ())
     \<lparr>n_tokens = 3, chunks = replicate BATCH_SIZE [1, 1, 1]\<rparr> [0..<BATCH_SIZE] =
   Inl InvalidArgumentError"
proof -
  have w: "np_where [0..<BATCH_SIZE] 0 = [0]"
    by (rule np_where_upt) (simp add: BATCH_SIZE_def)
  have ne: "np_where [0..<BATCH_SIZE] 0 \<noteq> []" using w by simp
  have "pool_sample \<lparr>n_tokens = 2, chunks = replicate BATCH_SIZE [1, 1 :: real]\<rparr>
      (input_mask_expanded \<lparr>n_tokens = 3, chunks = replicate BATCH_SIZE [1, 1, 1]\<rparr>)
      [0..<BATCH_SIZE] 0 = Inl InvalidArgumentError"
    unfolding pool_sample_unfold[OF ne] w
    by (simp add: sum_embeddings_def compatible_def)
  moreover have "[0..<BATCH_SIZE] = 0 # [1..<BATCH_SIZE]"
    by (simp add: BATCH_SIZE_def upt_conv_Cons)
  ultimately show ?thesis
    unfolding mean_pooling_def fst_conv
    by (metis pool_samples.simps(2) sum.case(1))
qed

lemma sum_list_zero:
  fixes f :: "'a \<Rightarrow> 'b::monoid_add"
  shows "\<forall>x \<in> set xs. f x = 0 \<Longrightarrow> (\<Sum>x\<leftarrow>xs. f x) = 0"
  by (induction xs) auto

lemma zero_mask_sums:
  fixes A :: "('v::real_vector) list list"
  assumes "\<forall>chunk_mask \<in> set B. \<forall>m \<in> set chunk_mask. m = (0::int)"
  shows "(\<Sum>(chunk, chunk_mask)\<leftarrow>zip A B. \<Sum>(e, m)\<leftarrow>zip chunk chunk_mask. real_of_int m *\<^sub>R e) = 0"
    and "(\<Sum>chunk_mask\<leftarrow>B. \<Sum>m\<leftarrow>chunk_mask. real_of_int m) = 0"
proof -
  have inner: "(\<Sum>p\<leftarrow>zip chunk chunk_mask. real_of_int (snd p) *\<^sub>R fst p) = 0"
    if "\<forall>m \<in> set chunk_mask. m = 0" for chunk :: "'v list" and chunk_mask
  proof -
    have "\<forall>x \<in> set (zip chunk chunk_mask). snd x = 0"
      using that by (auto dest: set_zip_rightD)
    then show ?thesis
      by (intro sum_list_zero) auto
  qed
  have "\<forall>x \<in> set (zip A B). \<forall>m \<in> set (snd x). m = 0"
    using assms by (auto dest: set_zip_rightD)
  then show "(\<Sum>(chunk, chunk_mask)\<leftarrow>zip A B. \<Sum>(e, m)\<leftarrow>zip chunk chunk_mask. real_of_int m *\<^sub>R e) = 0"
    by (intro sum_list_zero) (auto simp: split_def inner)
  show "(\<Sum>chunk_mask\<leftarrow>B. \<Sum>m\<leftarrow>chunk_mask. real_of_int m) = 0"
    using assms by (intro sum_list_zero) (auto intro: sum_list_zero)
qed

lemma mean_pooling_same_shape_clipped:
  fixes model_output :: "('v::real_vector) tensor \<times> 'p"
  assumes "well_shaped (fst model_output)" and "well_shaped att_mask"
    and "n_tokens (fst model_output) = n_tokens att_mask"
    and "length (chunks (fst model_output)) = length (chunks att_mask)"
    and "\<forall>i < BATCH_SIZE. i \<in> set sample_map"
  shows "\<exists>batch_result.
    mean_pooling model_output att_mask sample_map = Inr batch_result \<and>
    length batch_result = BATCH_SIZE \<and>
    (\<forall>i < BATCH_SIZE.
       let s_idx = hd (np_where sample_map i);
           e_idx = last (np_where sample_map i) + 1;
           mask_total = (\<Sum>chunk_mask\<leftarrow>slice (chunks att_mask) s_idx e_idx.
                           \<Sum>m\<leftarrow>chunk_mask. real_of_int m);
           divisor = max mask_total (1 / 10 ^ 7)
       in 1 / 10 ^ 7 \<le> divisor \<and> divisor \<noteq> 0 \<and>
          batch_result ! i =
            (\<Sum>(chunk, chunk_mask)\<leftarrow>zip (slice (chunks (fst model_output)) s_idx e_idx)
                                       (slice (chunks att_mask) s_idx e_idx).
               \<Sum>(e, m)\<leftarrow>zip chunk chunk_mask. real_of_int m *\<^sub>R e) /\<^sub>R divisor \<and>
          ((\<forall>chunk_mask \<in> set (slice (chunks att_mask) s_idx e_idx).
              \<forall>m \<in> set chunk_mask. m = 0) \<longrightarrow>
             divisor = 1 / 10 ^ 7 \<and> batch_result ! i = 0))"
proof -
  obtain batch_result where r: "mean_pooling model_output att_mask sample_map = Inr batch_result"
    and l: "length batch_result = BATCH_SIZE"
    using mean_pooling_same_shape_total[OF assms(4,3,5)] by blast
  have "let s_idx = hd (np_where sample_map i);
           e_idx = last (np_where sample_map i) + 1;
           mask_total = (\<Sum>chunk_mask\<leftarrow>slice (chunks att_mask) s_idx e_idx.
                           \<Sum>m\<leftarrow>chunk_mask. real_of_int m);
           divisor = max mask_total (1 / 10 ^ 7)
       in 1 / 10 ^ 7 \<le> divisor \<and> divisor \<noteq> 0 \<and>
          batch_result ! i =
            (\<Sum>(chunk, chunk_mask)\<leftarrow>zip (slice (chunks (fst model_output)) s_idx e_idx)
                                       (slice (chunks att_mask) s_idx e_idx).
               \<Sum>(e, m)\<leftarrow>zip chunk chunk_mask. real_of_int m *\<^sub>R e) /\<^sub>R divisor \<and>
          ((\<forall>chunk_mask \<in> set (slice (chunks att_mask) s_idx e_idx).
              \<forall>m \<in> set chunk_mask. m = 0) \<longrightarrow>
             divisor = 1 / 10 ^ 7 \<and> batch_result ! i = 0)"
    if i: "i < BATCH_SIZE" for i
  proof -
    have ne: "np_where sample_map i \<noteq> []"
      using i assms(5) np_where_Nil_iff[of sample_map i] by simp
    have p: "pool_sample (fst model_output) (input_mask_expanded att_mask) sample_map i =
        Inr (batch_result ! i)"
      using mean_pooling_Inr[OF r] i by simp
    note v = p[unfolded pool_sample_same_shape[OF ne assms(4,3,1,2)], simplified]
    define S where "S = (\<Sum>chunk_mask\<leftarrow>slice (chunks att_mask) (hd (np_where sample_map i))
        (last (np_where sample_map i) + 1). \<Sum>m\<leftarrow>chunk_mask. real_of_int m)"
    have b: "1 / 10 ^ 7 \<le> max S (1 / 10 ^ 7)" "max S (1 / 10 ^ 7) \<noteq> 0"
      by simp_all
    have z: "max S (1 / 10 ^ 7) = 1 / 10 ^ 7 \<and> batch_result ! i = 0"
      if "\<forall>chunk_mask \<in> set (slice (chunks att_mask) (hd (np_where sample_map i))
            (last (np_where sample_map i) + 1)). \<forall>m \<in> set chunk_mask. m = 0"
      using zero_mask_sums(1)[OF that, where A = "slice (chunks (fst model_output))
          (hd (np_where sample_map i)) (last (np_where sample_map i) + 1)"]
        zero_mask_sums(2)[OF that] v
      unfolding S_def by simp
    show ?thesis
      unfolding Let_def using b z v unfolding S_def by simp
  qed
  then show ?thesis using r l by blast
qed


lemma sum_mask_slice:
  "sum_mask (tensor_slice (input_mask_expanded att_mask) s_idx e_idx) =
     max (\<Sum>chunk_mask\<leftarrow>slice (chunks att_mask) s_idx e_idx. \<Sum>m\<leftarrow>chunk_mask. real_of_int m)
       (1 / 10 ^ 7)"
proof -
  have c: "chunks (tensor_slice (input_mask_expanded att_mask) s_idx e_idx) =
      map (map real_of_int) (slice (chunks att_mask) s_idx e_idx)"
    by (simp add: slice_map)
  show ?thesis
    unfolding sum_mask_def clip_by_value_def c mask_sum_expanded ..
qed

lemma pool_sample_clipped:
  fixes token_embeddings :: "('v::real_vector) tensor"
  assumes "i \<in> set sample_map"
    and "sum_embeddings
       (tensor_slice token_embeddings (hd (np_where sample_map i))
          (last (np_where sample_map i) + 1))
       (tensor_slice (input_mask_expanded att_mask) (hd (np_where sample_map i))
          (last (np_where sample_map i) + 1)) = Inr summed"
  shows "pool_sample token_embeddings (input_mask_expanded att_mask) sample_map i =
     Inr (summed /\<^sub>R max (\<Sum>chunk_mask\<leftarrow>slice (chunks att_mask) (hd (np_where sample_map i))
                                      (last (np_where sample_map i) + 1).
                            \<Sum>m\<leftarrow>chunk_mask. real_of_int m) (1 / 10 ^ 7))"
proof -
  have ne: "np_where sample_map i \<noteq> []"
    using assms(1) np_where_Nil_iff[of sample_map i] by simp
  show ?thesis
    unfolding pool_sample_unfold[OF ne] assms(2) sum_mask_slice by simp
qed

lemma mean_pooling_result_clipped:
  fixes model_output :: "('v::real_vector) tensor \<times> 'p"
  assumes r: "mean_pooling model_output att_mask sample_map = Inr batch_result"
    and i: "i < BATCH_SIZE"
  shows "\<exists>summed.
     sum_embeddings
       (tensor_slice (fst model_output) (hd (np_where sample_map i))
          (last (np_where sample_map i) + 1))
       (tensor_slice (input_mask_expanded att_mask) (hd (np_where sample_map i))
          (last (np_where sample_map i) + 1)) = Inr summed \<and>
     batch_result ! i =
       summed /\<^sub>R max (\<Sum>chunk_mask\<leftarrow>slice (chunks att_mask) (hd (np_where sample_map i))
                                      (last (np_where sample_map i) + 1).
                        \<Sum>m\<leftarrow>chunk_mask. real_of_int m) (1 / 10 ^ 7)"
proof -
  let ?s = "hd (np_where sample_map i)"
  let ?e = "last (np_where sample_map i) + 1"
  from mean_pooling_Inr[OF r] i have occ: "i \<in> set sample_map"
    and p: "pool_sample (fst model_output) (input_mask_expanded att_mask) sample_map i =
        Inr (batch_result ! i)"
    by simp_all
  have ne: "np_where sample_map i \<noteq> []"
    using occ np_where_Nil_iff[of sample_map i] by simp
  have m: "sum_mask (tensor_slice (input_mask_expanded att_mask) ?s ?e) =
      max (\<Sum>chunk_mask\<leftarrow>slice (chunks att_mask) ?s ?e. \<Sum>m\<leftarrow>chunk_mask. real_of_int m)
        (1 / 10 ^ 7)"
  proof -
    have c: "chunks (tensor_slice (input_mask_expanded att_mask) ?s ?e) =
        map (map real_of_int) (slice (chunks att_mask) ?s ?e)"
      by (simp add: slice_map)
    show ?thesis
      unfolding sum_mask_def clip_by_value_def c mask_sum_expanded ..
  qed
  show ?thesis
  proof (cases "sum_embeddings (tensor_slice (fst model_output) ?s ?e)
      (tensor_slice (input_mask_expanded att_mask) ?s ?e)")
    case (Inl e)
    with p show ?thesis unfolding pool_sample_unfold[OF ne] by simp
  next
    case (Inr summed)
    with p have "batch_result ! i =
        summed /\<^sub>R sum_mask (tensor_slice (input_mask_expanded att_mask) ?s ?e)"
      unfolding pool_sample_unfold[OF ne] by simp
    with Inr show ?thesis unfolding m by blast
  qed
qed

text \<open>
  Claim C9. In every pass of the loop that reaches the division, the divisor is the
  maximum of \<open>10\<^sup>-\<^sup>7\<close> and the sum of the attention-mask entries of the sample's
  slice, so it is at least \<open>10\<^sup>-\<^sup>7\<close> and never zero, and the pass yields the value of
  \<^verbatim>\<open>sum_embeddings\<close> divided by it. Whenever \<^verbatim>\<open>mean_pooling\<close> returns, the vector of
  every sample is that quotient. For two tensors of the same shape and a batch in which
  every sample index below \<^verbatim>\<open>BATCH_SIZE\<close> occurs, \<^verbatim>\<open>mean_pooling\<close> returns
  \<^verbatim>\<open>BATCH_SIZE\<close> vectors, the vector of a sample being the masked sum over its slice
  divided by the clipped divisor; when all attention-mask entries of the slice are zero,
  the divisor is exactly \<open>10\<^sup>-\<^sup>7\<close> and the vector is zero.
\<close>

theorem mean_pooling_denominator_clipped:
  fixes model_output :: "('v::real_vector) tensor \<times> 'p"
  shows
  "(\<forall>i summed.
      i \<in> set sample_map \<longrightarrow>
      (let s_idx = hd (np_where sample_map i);
           e_idx = last (np_where sample_map i) + 1;
           mask_total = (\<Sum>chunk_mask\<leftarrow>slice (chunks att_mask) s_idx e_idx.
                           \<Sum>m\<leftarrow>chunk_mask. real_of_int m);
           divisor = max mask_total (1 / 10 ^ 7)
       in sum_embeddings (tensor_slice (fst model_output) s_idx e_idx)
            (tensor_slice (input_mask_expanded att_mask) s_idx e_idx) = Inr summed \<longrightarrow>
          1 / 10 ^ 7 \<le> divisor \<and> divisor \<noteq> 0 \<and>
          pool_sample (fst model_output) (input_mask_expanded att_mask) sample_map i =
            Inr (summed /\<^sub>R divisor))) \<and>
   (\<forall>batch_result.
      mean_pooling model_output att_mask sample_map = Inr batch_result \<longrightarrow>
      (\<forall>i < BATCH_SIZE.
         let s_idx = hd (np_where sample_map i);
             e_idx = last (np_where sample_map i) + 1;
             mask_total = (\<Sum>chunk_mask\<leftarrow>slice (chunks att_mask) s_idx e_idx.
                             \<Sum>m\<leftarrow>chunk_mask. real_of_int m);
             divisor = max mask_total (1 / 10 ^ 7)
         in 1 / 10 ^ 7 \<le> divisor \<and> divisor \<noteq> 0 \<and>
            (\<exists>summed.
               sum_embeddings (tensor_slice (fst model_output) s_idx e_idx)
                 (tensor_slice (input_mask_expanded att_mask) s_idx e_idx) = Inr summed \<and>
               batch_result ! i = summed /\<^sub>R divisor))) \<and>
   (well_shaped (fst model_output) \<and> well_shaped att_mask \<and>
    n_tokens (fst model_output) = n_tokens att_mask \<and>
    length (chunks (fst model_output)) = length (chunks att_mask) \<and>
    (\<forall>i < BATCH_SIZE. i \<in> set sample_map) \<longrightarrow>
      (\<exists>batch_result.
         mean_pooling model_output att_mask sample_map = Inr batch_result \<and>
         length batch_result = BATCH_SIZE \<and>
         (\<forall>i < BATCH_SIZE.
            let s_idx = hd (np_where sample_map i);
                e_idx = last (np_where sample_map i) + 1;
                mask_total = (\<Sum>chunk_mask\<leftarrow>slice (chunks att_mask) s_idx e_idx.
                                \<Sum>m\<leftarrow>chunk_mask. real_of_int m);
                divisor = max mask_total (1 / 10 ^ 7)
            in 1 / 10 ^ 7 \<le> divisor \<and> divisor \<noteq> 0 \<and>
               batch_result ! i =
                 (\<Sum>(chunk, chunk_mask)\<leftarrow>zip (slice (chunks (fst model_output)) s_idx e_idx)
                                            (slice (chunks att_mask) s_idx e_idx).
                    \<Sum>(e, m)\<leftarrow>zip chunk chunk_mask. real_of_int m *\<^sub>R e) /\<^sub>R divisor \<and>
               ((\<forall>chunk_mask \<in> set (slice (chunks att_mask) s_idx e_idx).
                   \<forall>m \<in> set chunk_mask. m = 0) \<longrightarrow>
                  divisor = 1 / 10 ^ 7 \<and> batch_result ! i = 0))))"
proof (intro conjI allI impI)
  fix i summed
  assume i: "i \<in> set sample_map"
  define S where "S = (\<Sum>chunk_mask\<leftarrow>slice (chunks att_mask) (hd (np_where sample_map i))
        (last (np_where sample_map i) + 1). \<Sum>m\<leftarrow>chunk_mask. real_of_int m)"
  have b: "1 / 10 ^ 7 \<le> max S (1 / 10 ^ 7)" "max S (1 / 10 ^ 7) \<noteq> 0"
    by simp_all
  from pool_sample_clipped[OF i, of "fst model_output" att_mask summed] b
  show "let s_idx = hd (np_where sample_map i);
           e_idx = last (np_where sample_map i) + 1;
           mask_total = (\<Sum>chunk_mask\<leftarrow>slice (chunks att_mask) s_idx e_idx.
                           \<Sum>m\<leftarrow>chunk_mask. real_of_int m);
           divisor = max mask_total (1 / 10 ^ 7)
       in sum_embeddings (tensor_slice (fst model_output) s_idx e_idx)
            (tensor_slice (input_mask_expanded att_mask) s_idx e_idx) = Inr summed \<longrightarrow>
          1 / 10 ^ 7 \<le> divisor \<and> divisor \<noteq> 0 \<and>
          pool_sample (fst model_output) (input_mask_expanded att_mask) sample_map i =
            Inr (summed /\<^sub>R divisor)"
    unfolding Let_def S_def by blast
next
  fix batch_result i
  assume r: "mean_pooling model_output att_mask sample_map = Inr batch_result"
    and i: "i < BATCH_SIZE"
  define S where "S = (\<Sum>chunk_mask\<leftarrow>slice (chunks att_mask) (hd (np_where sample_map i))
        (last (np_where sample_map i) + 1). \<Sum>m\<leftarrow>chunk_mask. real_of_int m)"
  have b: "1 / 10 ^ 7 \<le> max S (1 / 10 ^ 7)" "max S (1 / 10 ^ 7) \<noteq> 0"
    by simp_all
  from mean_pooling_result_clipped[OF r i] b
  show "let s_idx = hd (np_where sample_map i);
             e_idx = last (np_where sample_map i) + 1;
             mask_total = (\<Sum>chunk_mask\<leftarrow>slice (chunks att_mask) s_idx e_idx.
                             \<Sum>m\<leftarrow>chunk_mask. real_of_int m);
             divisor = max mask_total (1 / 10 ^ 7)
         in 1 / 10 ^ 7 \<le> divisor \<and> divisor \<noteq> 0 \<and>
            (\<exists>summed.
               sum_embeddings (tensor_slice (fst model_output) s_idx e_idx)
                 (tensor_slice (input_mask_expanded att_mask) s_idx e_idx) = Inr summed \<and>
               batch_result ! i = summed /\<^sub>R divisor)"
    unfolding Let_def S_def by blast
next
  assume "well_shaped (fst model_output) \<and> well_shaped att_mask \<and>
    n_tokens (fst model_output) = n_tokens att_mask \<and>
    length (chunks (fst model_output)) = length (chunks att_mask) \<and>
    (\<forall>i < BATCH_SIZE. i \<in> set sample_map)"
  then have h: "well_shaped (fst model_output)" "well_shaped att_mask"
    "n_tokens (fst model_output) = n_tokens att_mask"
    "length (chunks (fst model_output)) = length (chunks att_mask)"
    "\<forall>i < BATCH_SIZE. i \<in> set sample_map"
    by blast+
  show "\<exists>batch_result.
         mean_pooling model_output att_mask sample_map = Inr batch_result \<and>
         length batch_result = BATCH_SIZE \<and>
         (\<forall>i < BATCH_SIZE.
            let s_idx = hd (np_where sample_map i);
                e_idx = last (np_where sample_map i) + 1;
                mask_total = (\<Sum>chunk_mask\<leftarrow>slice (chunks att_mask) s_idx e_idx.
                                \<Sum>m\<leftarrow>chunk_mask. real_of_int m);
                divisor = max mask_total (1 / 10 ^ 7)
            in 1 / 10 ^ 7 \<le> divisor \<and> divisor \<noteq> 0 \<and>
               batch_result ! i =
                 (\<Sum>(chunk, chunk_mask)\<leftarrow>zip (slice (chunks (fst model_output)) s_idx e_idx)
                                            (slice (chunks att_mask) s_idx e_idx).
                    \<Sum>(e, m)\<leftarrow>zip chunk chunk_mask. real_of_int m *\<^sub>R e) /\<^sub>R divisor \<and>
               ((\<forall>chunk_mask \<in> set (slice (chunks att_mask) s_idx e_idx).
                   \<forall>m \<in> set chunk_mask. m = 0) \<longrightarrow>
                  divisor = 1 / 10 ^ 7 \<and> batch_result ! i = 0))"
    by (rule mean_pooling_same_shape_clipped[OF h])
qed

lemma clip_example_shapes:
  "well_shaped cancelling_attention_mask" "well_shaped zero_attention_mask"
  "n_tokens (fst (example_token_embeddings, ())) = n_tokens cancelling_attention_mask"
  "n_tokens (fst (example_token_embeddings, ())) = n_tokens zero_attention_mask"
  "length (chunks (fst (example_token_embeddings, ()))) = length (chunks cancelling_attention_mask)"
  "length (chunks (fst (example_token_embeddings, ()))) = length (chunks zero_attention_mask)"
  "well_shaped (fst (example_token_embeddings, ()))"
  by (simp_all add: cancelling_attention_mask_def zero_attention_mask_def
      example_token_embeddings_def BATCH_SIZE_def well_shaped_def list_all_iff)

theorem mean_pooling_denominator_clipped_witness:
  "(\<exists>batch_result.
      mean_pooling (example_token_embeddings, ()) cancelling_attention_mask example_sample_map
        = Inr batch_result \<and> batch_result ! 0 = - 20000000 \<and>
      (\<exists>summed.
         sum_embeddings (tensor_slice example_token_embeddings 0 2)
           (tensor_slice (input_mask_expanded cancelling_attention_mask) 0 2) = Inr summed \<and>
         batch_result ! 0 = summed /\<^sub>R (1 / 10 ^ 7))) \<and>
   (\<exists>batch_result.
      mean_pooling (example_token_embeddings, ()) zero_attention_mask example_sample_map
        = Inr batch_result \<and> batch_result ! 0 = 0)"
proof -
  have pos: "0 < BATCH_SIZE" by (simp add: BATCH_SIZE_def)
  note c = mean_pooling_denominator_clipped[where model_output = "(example_token_embeddings, ())"
      and att_mask = cancelling_attention_mask and sample_map = example_sample_map]
  note z = mean_pooling_denominator_clipped[where model_output = "(example_token_embeddings, ())"
      and att_mask = zero_attention_mask and sample_map = example_sample_map]
  from c clip_example_shapes(7,1,3,5) example_covers
  obtain r1 where r1: "mean_pooling (example_token_embeddings, ()) cancelling_attention_mask
      example_sample_map = Inr r1"
    and v1: "\<forall>i < BATCH_SIZE.
       let s_idx = hd (np_where example_sample_map i);
           e_idx = last (np_where example_sample_map i) + 1;
           mask_total = (\<Sum>chunk_mask\<leftarrow>slice (chunks cancelling_attention_mask) s_idx e_idx.
                           \<Sum>m\<leftarrow>chunk_mask. real_of_int m);
           divisor = max mask_total (1 / 10 ^ 7)
       in 1 / 10 ^ 7 \<le> divisor \<and> divisor \<noteq> 0 \<and>
          r1 ! i =
            (\<Sum>(chunk, chunk_mask)\<leftarrow>zip (slice (chunks (fst (example_token_embeddings, ()))) s_idx e_idx)
                                       (slice (chunks cancelling_attention_mask) s_idx e_idx).
               \<Sum>(e, m)\<leftarrow>zip chunk chunk_mask. real_of_int m *\<^sub>R e) /\<^sub>R divisor \<and>
          ((\<forall>chunk_mask \<in> set (slice (chunks cancelling_attention_mask) s_idx e_idx).
              \<forall>m \<in> set chunk_mask. m = 0) \<longrightarrow>
             divisor = 1 / 10 ^ 7 \<and> r1 ! i = 0)"
    by blast
  from v1[rule_format, OF pos] have e1: "r1 ! 0 = - 20000000"
    by (simp add: Let_def example_where_0 slice_def cancelling_attention_mask_def
        example_token_embeddings_def)
  from c r1 pos have "let s_idx = hd (np_where example_sample_map 0);
           e_idx = last (np_where example_sample_map 0) + 1;
           mask_total = (\<Sum>chunk_mask\<leftarrow>slice (chunks cancelling_attention_mask) s_idx e_idx.
                           \<Sum>m\<leftarrow>chunk_mask. real_of_int m);
           divisor = max mask_total (1 / 10 ^ 7)
       in 1 / 10 ^ 7 \<le> divisor \<and> divisor \<noteq> 0 \<and>
          (\<exists>summed.
             sum_embeddings (tensor_slice (fst (example_token_embeddings, ())) s_idx e_idx)
               (tensor_slice (input_mask_expanded cancelling_attention_mask) s_idx e_idx)
                 = Inr summed \<and>
             r1 ! 0 = summed /\<^sub>R divisor)"
    by blast
  then have s1: "\<exists>summed.
         sum_embeddings (tensor_slice example_token_embeddings 0 2)
           (tensor_slice (input_mask_expanded cancelling_attention_mask) 0 2) = Inr summed \<and>
         r1 ! 0 = summed /\<^sub>R (1 / 10 ^ 7)"
    by (simp add: Let_def example_where_0 slice_def cancelling_attention_mask_def
        numeral_2_eq_2)
  from z clip_example_shapes(7,2,4,6) example_covers
  obtain r2 where r2: "mean_pooling (example_token_embeddings, ()) zero_attention_mask
      example_sample_map = Inr r2"
    and v2: "\<forall>i < BATCH_SIZE.
       let s_idx = hd (np_where example_sample_map i);
           e_idx = last (np_where example_sample_map i) + 1;
           mask_total = (\<Sum>chunk_mask\<leftarrow>slice (chunks zero_attention_mask) s_idx e_idx.
                           \<Sum>m\<leftarrow>chunk_mask. real_of_int m);
           divisor = max mask_total (1 / 10 ^ 7)
       in 1 / 10 ^ 7 \<le> divisor \<and> divisor \<noteq> 0 \<and>
          r2 ! i =
            (\<Sum>(chunk, chunk_mask)\<leftarrow>zip (slice (chunks (fst (example_token_embeddings, ()))) s_idx e_idx)
                                       (slice (chunks zero_attention_mask) s_idx e_idx).
               \<Sum>(e, m)\<leftarrow>zip chunk chunk_mask. real_of_int m *\<^sub>R e) /\<^sub>R divisor \<and>
          ((\<forall>chunk_mask \<in> set (slice (chunks zero_attention_mask) s_idx e_idx).
              \<forall>m \<in> set chunk_mask. m = 0) \<longrightarrow>
             divisor = 1 / 10 ^ 7 \<and> r2 ! i = 0)"
    by blast
  have "\<forall>chunk_mask \<in> set (slice (chunks zero_attention_mask) s e). \<forall>m \<in> set chunk_mask. m = 0"
    for s e
    using slice_subset[of "chunks zero_attention_mask" s e]
    by (auto simp: zero_attention_mask_def)
  with v2[rule_format, OF pos] have "r2 ! 0 = 0"
    unfolding Let_def by blast
  with r1 e1 s1 r2 show ?thesis by blast
qed

section \<open>Keys and texts of the tables the pipeline builds\<close>

text \<open>
  On a full batch the tokenizer and encoder of the examples pool every text to its
  length.
\<close>

lemma slice_one: "i < length xs \<Longrightarrow> slice xs i (Suc i) = [xs ! i]"
  by (simp add: slice_def take_Suc_conv_app_nth hd_drop_conv_nth Cons_nth_drop_Suc[symmetric])

lemma example_pool:
  assumes "i < length texts"
  shows "pool_sample \<lparr>n_tokens = 1, chunks = map (\<lambda>txt. [real (length txt)]) texts\<rparr>
           (input_mask_expanded \<lparr>n_tokens = 1, chunks = map (\<lambda>txt. [1]) texts\<rparr>)
           [0..<length texts] i = Inr (real (length (texts ! i)))"
proof -
  have w: "np_where [0..<length texts] i = [i]" using assms by (rule np_where_upt)
  have ne: "np_where [0..<length texts] i \<noteq> []" using w by simp
  show ?thesis
    unfolding pool_sample_unfold[OF ne] w
    using assms
    by (simp add: sum_embeddings_def sum_mask_def clip_by_value_def compatible_def
        broadcast_dim_def broadcast_def slice_one)
qed

lemma map_nth_upt: "map (\<lambda>i. f (xs ! i)) [0..<length xs] = map f xs"
  by (rule nth_equalityI) auto

lemma example_pooling:
  assumes "length texts = BATCH_SIZE"
  shows "mean_pooling (example_sbert_model (model_inputs (example_tokenizer texts))
                         (attention_mask (example_tokenizer texts)))
           (attention_mask (example_tokenizer texts))
           (overflow_to_sample_mapping (example_tokenizer texts)) =
         Inr (map (\<lambda>txt. real (length txt)) texts)"
proof -
  have "\<forall>i \<in> set [0..<length texts].
      pool_sample \<lparr>n_tokens = 1, chunks = map (\<lambda>txt. [real (length txt)]) texts\<rparr>
           (input_mask_expanded \<lparr>n_tokens = 1, chunks = map (\<lambda>txt. [1]) texts\<rparr>)
           [0..<length texts] i = Inr ((\<lambda>i. real (length (texts ! i))) i)"
  proof
    fix i assume "i \<in> set [0..<length texts]"
    then have "i < length texts" by simp
    then show "pool_sample \<lparr>n_tokens = 1, chunks = map (\<lambda>txt. [real (length txt)]) texts\<rparr>
           (input_mask_expanded \<lparr>n_tokens = 1, chunks = map (\<lambda>txt. [1]) texts\<rparr>)
           [0..<length texts] i = Inr ((\<lambda>i. real (length (texts ! i))) i)"
      by (rule example_pool)
  qed
  from pool_samples_all[OF this]
  have "pool_samples \<lparr>n_tokens = 1, chunks = map (\<lambda>txt. [real (length txt)]) texts\<rparr>
           (input_mask_expanded \<lparr>n_tokens = 1, chunks = map (\<lambda>txt. [1]) texts\<rparr>)
           [0..<length texts] [0..<length texts] =
        Inr (map (\<lambda>txt. real (length txt)) texts)"
    by (simp only: map_nth_upt[of "\<lambda>txt. real (length txt)" texts])
  then show ?thesis
    unfolding mean_pooling_def example_tokenizer_def example_sbert_model_def assms[symmetric]
    by (simp only: encoding.simps fst_conv)
qed

lemma example_get_embeddings:
  assumes "length data = BATCH_SIZE"
  shows "get_embeddings example_tokenizer example_sbert_model data =
           Inr \<lparr>cik_column = map cik data, year_column = map year data,
                section_column = map section data,
                embedding_column = map (\<lambda>r. real (length (body r))) data\<rparr>"
proof -
  have "length (map body data) = BATCH_SIZE" using assms by simp
  from example_pooling[OF this]
  have "mean_pooling (example_sbert_model (model_inputs (example_tokenizer (map body data)))
                         (attention_mask (example_tokenizer (map body data))))
           (attention_mask (example_tokenizer (map body data)))
           (overflow_to_sample_mapping (example_tokenizer (map body data))) =
         Inr (map (\<lambda>r. real (length (body r))) data)"
    by (simp only: map_map comp_def)
  then show ?thesis
    unfolding get_embeddings_def Let_def by (simp only: sum.case)
qed

lemma get_embeddings_keys:
  "get_embeddings tokenizer sbert_model data = Inr out \<Longrightarrow>
     zip (cik_column out) (zip (year_column out) (section_column out)) = map key_of data"
proof -
  have z: "zip (map cik data) (zip (map year data) (map section data)) = map key_of data"
    by (induction data) (simp_all add: key_of_def)
  assume "get_embeddings tokenizer sbert_model data = Inr out"
  then show ?thesis
    using z by (auto simp: get_embeddings_def Let_def split: sum.splits)
qed

lemma distinct_slice: "distinct (map f xs) \<Longrightarrow> distinct (map f (slice xs s e))"
  by (simp add: slice_def distinct_take distinct_drop flip: take_map drop_map)

lemma full_wrap_length:
  "\<exists>wrapped. wrap full_table SECTIONS_TO_PARSE ''raw_sections'' = Inr wrapped \<and>
     length (concat wrapped) = BATCH_SIZE"
  by (simp add: wrap_eq full_table_def SECTIONS_TO_PARSE_def BATCH_SIZE_def)

text \<open>
  Claim C5, amended. \<^verbatim>\<open>wrap\<close> does not remove duplicates; it preserves uniqueness.
  If the rows of the input table have pairwise distinct (\<^verbatim>\<open>cik\<close>, \<^verbatim>\<open>year\<close>) pairs and
  the listed column names end in pairwise distinct section names, no two records of the
  tables \<^verbatim>\<open>wrap\<close> returns, taken together, share a (\<^verbatim>\<open>cik\<close>, \<^verbatim>\<open>year\<close>,
  \<^verbatim>\<open>section\<close>) triple; and the vector records \<^verbatim>\<open>get_embeddings\<close> returns for a batch
  (a slice) of that table carry the batch's key columns, so their triples are pairwise
  distinct as well.
\<close>

theorem wrap_keys_unique:
  assumes "wrap data col_names new_name = Inr wrapped"
    and "distinct (map (\<lambda>example. (cik example, year example)) (rows data))"
    and "distinct (map section_name col_names)"
  shows "distinct (map key_of (concat wrapped)) \<and>
    (\<forall>out. get_embeddings tokenizer sbert_model (slice (concat wrapped) s_idx e_idx) = Inr out \<longrightarrow>
       distinct (zip (cik_column out) (zip (year_column out) (section_column out))))"
proof -
  from assms(1) have "wrapped = map (\<lambda>col. map (\<lambda>example. \<lparr>cik = cik example, year = year example,
                        section = section_name col, body = column example col\<rparr>)
                 (filter (\<lambda>example. column example col \<noteq> []) (rows data))) col_names"
    unfolding wrap_eq by (simp split: if_splits)
  then have d: "distinct (map key_of (concat wrapped))"
    using wrap_keys_distinct[OF assms(2,3)] by simp
  then have "distinct (map key_of (slice (concat wrapped) s_idx e_idx))"
    by (rule distinct_slice)
  then show ?thesis using d by (auto dest: get_embeddings_keys)
qed

theorem wrap_keys_unique_witness:
  "\<exists>wrapped out.
     wrap full_table SECTIONS_TO_PARSE ''raw_sections'' = Inr wrapped \<and>
     distinct (map key_of (concat wrapped)) \<and>
     get_embeddings example_tokenizer example_sbert_model (slice (concat wrapped) 0 BATCH_SIZE)
       = Inr out \<and>
     distinct (zip (cik_column out) (zip (year_column out) (section_column out)))"
proof -
  obtain wrapped where w: "wrap full_table SECTIONS_TO_PARSE ''raw_sections'' = Inr wrapped"
    and l: "length (concat wrapped) = BATCH_SIZE"
    using full_wrap_length by blast
  have d1: "distinct (map (\<lambda>example. (cik example, year example)) (rows full_table))"
    by (simp add: full_table_def)
  have d2: "distinct (map section_name SECTIONS_TO_PARSE)"
    by (simp add: SECTIONS_TO_PARSE_def section_name_def)
  note t = wrap_keys_unique[OF w d1 d2, of example_tokenizer example_sbert_model 0 BATCH_SIZE]
  have "length (slice (concat wrapped) 0 BATCH_SIZE) = BATCH_SIZE"
    using l by (simp add: slice_def)
  from example_get_embeddings[OF this] obtain out where
    "get_embeddings example_tokenizer example_sbert_model (slice (concat wrapped) 0 BATCH_SIZE)
       = Inr out"
    by blast
  with t w show ?thesis by blast
qed

text \<open>
  Claim C5 as stated, for every table, fails on a table with two rows of the same
  company and year: both records of section 1 carry the same triple.
\<close>

theorem wrap_keys_unique_counterexample:
  "wrap duplicate_table SECTIONS_TO_PARSE ''raw_sections'' =
     Inr [[\<lparr>cik = ''718413'', year = ''2016'', section = ''1'', body = ''Sold 3 units''\<rparr>,
           \<lparr>cik = ''718413'', year = ''2016'', section = ''1'', body = ''Sold 4 units''\<rparr>],
          [], [], []] \<and>
   \<not> distinct (map key_of
        (concat (projr (wrap duplicate_table SECTIONS_TO_PARSE ''raw_sections''))))"
  by (simp add: wrap_eq section_name_def duplicate_table_def SECTIONS_TO_PARSE_def key_of_def)

lemma raw_get_embeddings:
  "get_embeddings example_tokenizer example_sbert_model
     (slice (projr (concatenate_datasets
        (projr (wrap raw_table SECTIONS_TO_PARSE ''raw_sections'')))) 0 BATCH_SIZE) =
   Inr \<lparr>cik_column = replicate BATCH_SIZE ''718413'',
        year_column = concat (replicate 4 [''2012'', ''2013'', ''2014'', ''2015'']),
        section_column = concat (map (replicate 4) [''1'', ''1A'', ''7'', ''7A'']),
        embedding_column = replicate BATCH_SIZE 12\<rparr>"
proof -
  let ?d = "slice (projr (concatenate_datasets
        (projr (wrap raw_table SECTIONS_TO_PARSE ''raw_sections'')))) 0 BATCH_SIZE"
  have l: "length ?d = BATCH_SIZE"
    by (simp add: wrap_eq raw_table_def SECTIONS_TO_PARSE_def BATCH_SIZE_def slice_def
        concatenate_datasets_def)
  have "map cik ?d = replicate BATCH_SIZE ''718413''"
    "map year ?d = concat (replicate 4 [''2012'', ''2013'', ''2014'', ''2015''])"
    "map section ?d = concat (map (replicate 4) [''1'', ''1A'', ''7'', ''7A''])"
    "map (\<lambda>r. real (length (body r))) ?d = replicate BATCH_SIZE 12"
    by (simp_all add: wrap_eq raw_table_def SECTIONS_TO_PARSE_def BATCH_SIZE_def slice_def
        concatenate_datasets_def section_name_def numeral_eq_Suc)
  then show ?thesis
    unfolding example_get_embeddings[OF l] by (simp only:)
qed

text \<open>
  Claim C4, amended. The table the notebook prepares for the sentence transformer is
  \<^verbatim>\<open>wrap\<close> applied to the raw \<^verbatim>\<open>train\<close> and \<^verbatim>\<open>test\<close> tables with the four raw section
  columns, concatenated; \<^verbatim>\<open>wrap\<close> returns it when the raw table has these four
  columns. On every batch (slice) of that table, \<^verbatim>\<open>get_embeddings\<close>
  calls the tokenizer on the same slice of the raw, non-empty section texts of the
  filings, unchanged, column after column, whatever the tokenizer and the encoder are;
  the encoder and \<^verbatim>\<open>mean_pooling\<close> receive what the tokenizer returns for these texts.
  The cleaning pass takes no part in it.
\<close>

theorem get_embeddings_tokenizes_raw_text:
  assumes "set SECTIONS_TO_PARSE \<subseteq> set (column_names train)"
  shows "\<exists>wrapped d.
     wrap train SECTIONS_TO_PARSE ''raw_sections'' = Inr wrapped \<and>
     concatenate_datasets wrapped = Inr d \<and>
     (\<forall>s_idx e_idx.
        get_embeddings tokenizer sbert_model (slice d s_idx e_idx) =
          (let encoded_input =
                 tokenizer
                   (slice (concat (map (\<lambda>col. filter (\<lambda>txt. txt \<noteq> [])
                                          (map (\<lambda>example. column example col) (rows train)))
                              SECTIONS_TO_PARSE))
                      s_idx e_idx)
           in case mean_pooling
                     (sbert_model (model_inputs encoded_input) (attention_mask encoded_input))
                     (attention_mask encoded_input)
                     (overflow_to_sample_mapping encoded_input) of
                Inl e \<Rightarrow> Inl e
              | Inr pooled \<Rightarrow>
                  Inr \<lparr>cik_column = map cik (slice d s_idx e_idx),
                       year_column = map year (slice d s_idx e_idx),
                       section_column = map section (slice d s_idx e_idx),
                       embedding_column = pooled\<rparr>))"
proof -
  let ?w = "map (\<lambda>col. map (\<lambda>example. \<lparr>cik = cik example, year = year example,
                        section = section_name col, body = column example col\<rparr>)
                 (filter (\<lambda>example. column example col \<noteq> []) (rows train))) SECTIONS_TO_PARSE"
  have ok: "\<forall>col \<in> set SECTIONS_TO_PARSE. col \<in> set (column_names train) \<and> col \<noteq> ''section'' \<and>
           ''raw_sections'' \<notin> {[], ''cik'', ''year'', col, ''section''}"
    using assms by (auto simp: SECTIONS_TO_PARSE_def)
  have w: "wrap train SECTIONS_TO_PARSE ''raw_sections'' = Inr ?w"
    unfolding wrap_eq using ok by simp
  have c: "concatenate_datasets ?w = Inr (concat ?w)"
    by (simp add: concatenate_datasets_def SECTIONS_TO_PARSE_def)
  have t: "map body (concat ?w) =
      concat (map (\<lambda>col. filter (\<lambda>txt. txt \<noteq> []) (map (\<lambda>example. column example col) (rows train)))
                       SECTIONS_TO_PARSE)"
    by (simp add: map_concat comp_def filter_map)
  have b: "map body (slice (concat ?w) s_idx e_idx) =
      slice (concat (map (\<lambda>col. filter (\<lambda>txt. txt \<noteq> [])
                            (map (\<lambda>example. column example col) (rows train)))
                       SECTIONS_TO_PARSE)) s_idx e_idx" for s_idx e_idx
    unfolding t[symmetric] by (rule slice_map[symmetric])
  have "\<forall>s_idx e_idx.
        get_embeddings tokenizer sbert_model (slice (concat ?w) s_idx e_idx) =
          (let encoded_input =
                 tokenizer
                   (slice (concat (map (\<lambda>col. filter (\<lambda>txt. txt \<noteq> [])
                                          (map (\<lambda>example. column example col) (rows train)))
                              SECTIONS_TO_PARSE))
                      s_idx e_idx)
           in case mean_pooling
                     (sbert_model (model_inputs encoded_input) (attention_mask encoded_input))
                     (attention_mask encoded_input)
                     (overflow_to_sample_mapping encoded_input) of
                Inl e \<Rightarrow> Inl e
              | Inr pooled \<Rightarrow>
                  Inr \<lparr>cik_column = map cik (slice (concat ?w) s_idx e_idx),
                       year_column = map year (slice (concat ?w) s_idx e_idx),
                       section_column = map section (slice (concat ?w) s_idx e_idx),
                       embedding_column = pooled\<rparr>)"
    unfolding get_embeddings_def Let_def b by (intro allI refl)
  with w c show ?thesis by blast
qed

theorem get_embeddings_tokenizes_raw_text_witness:
  "\<exists>wrapped d out.
      wrap raw_table SECTIONS_TO_PARSE ''raw_sections'' = Inr wrapped \<and>
      concatenate_datasets wrapped = Inr d \<and>
      get_embeddings example_tokenizer example_sbert_model (slice d 0 BATCH_SIZE) = Inr out \<and>
      embedding_column out = replicate BATCH_SIZE 12"
proof -
  have sub: "set SECTIONS_TO_PARSE \<subseteq> set (column_names raw_table)"
    by (simp add: raw_table_def)
  from get_embeddings_tokenizes_raw_text[OF sub, of example_tokenizer example_sbert_model]
  obtain wrapped d where w: "wrap raw_table SECTIONS_TO_PARSE ''raw_sections'' = Inr wrapped"
    and c: "concatenate_datasets wrapped = Inr d"
    and g: "get_embeddings example_tokenizer example_sbert_model (slice d 0 BATCH_SIZE) =
          (let encoded_input =
                 example_tokenizer
                   (slice (concat (map (\<lambda>col. filter (\<lambda>txt. txt \<noteq> [])
                                          (map (\<lambda>example. column example col) (rows raw_table)))
                              SECTIONS_TO_PARSE))
                      0 BATCH_SIZE)
           in case mean_pooling
                     (example_sbert_model (model_inputs encoded_input) (attention_mask encoded_input))
                     (attention_mask encoded_input)
                     (overflow_to_sample_mapping encoded_input) of
                Inl e \<Rightarrow> Inl e
              | Inr pooled \<Rightarrow>
                  Inr \<lparr>cik_column = map cik (slice d 0 BATCH_SIZE),
                       year_column = map year (slice d 0 BATCH_SIZE),
                       section_column = map section (slice d 0 BATCH_SIZE),
                       embedding_column = pooled\<rparr>)"
    by blast
  have raw: "slice (concat (map (\<lambda>col. filter (\<lambda>txt. txt \<noteq> [])
                                          (map (\<lambda>example. column example col) (rows raw_table)))
                              SECTIONS_TO_PARSE)) 0 BATCH_SIZE =
             replicate BATCH_SIZE ''Sold 3 units''"
    by (simp add: raw_table_def SECTIONS_TO_PARSE_def BATCH_SIZE_def slice_def numeral_eq_Suc)
  have "length (replicate BATCH_SIZE ''Sold 3 units'') = BATCH_SIZE" by simp
  from example_pooling[OF this]
  have p: "mean_pooling
      (example_sbert_model (model_inputs (example_tokenizer (replicate BATCH_SIZE ''Sold 3 units'')))
         (attention_mask (example_tokenizer (replicate BATCH_SIZE ''Sold 3 units''))))
      (attention_mask (example_tokenizer (replicate BATCH_SIZE ''Sold 3 units'')))
      (overflow_to_sample_mapping (example_tokenizer (replicate BATCH_SIZE ''Sold 3 units''))) =
      Inr (replicate BATCH_SIZE 12)"
    by simp
  from g have "get_embeddings example_tokenizer example_sbert_model (slice d 0 BATCH_SIZE) =
      Inr \<lparr>cik_column = map cik (slice d 0 BATCH_SIZE),
                       year_column = map year (slice d 0 BATCH_SIZE),
                       section_column = map section (slice d 0 BATCH_SIZE),
                       embedding_column = replicate BATCH_SIZE 12\<rparr>"
    unfolding raw Let_def p by (simp only: sum.case)
  with w c show ?thesis by auto
qed

text \<open>
  Claim C4 as stated fails on \<open>raw_table\<close>, with an encoder that embeds a text as its
  length: \<^verbatim>\<open>get_embeddings\<close> returns 12, the length of the raw text
  \<^verbatim>\<open>Sold 3 units\<close>, for every record, and not 10, the length of the cleaned text
  \<^verbatim>\<open>Sold units\<close>.
\<close>

theorem get_embeddings_cleaned_text_counterexample:
  "get_embeddings example_tokenizer example_sbert_model
     (slice (projr (concatenate_datasets
        (projr (wrap raw_table SECTIONS_TO_PARSE ''raw_sections'')))) 0 BATCH_SIZE) =
   Inr \<lparr>cik_column = replicate BATCH_SIZE ''718413'',
        year_column = concat (replicate 4 [''2012'', ''2013'', ''2014'', ''2015'']),
        section_column = concat (map (replicate 4) [''1'', ''1A'', ''7'', ''7A'']),
        embedding_column = replicate BATCH_SIZE (real (length ''Sold 3 units''))\<rparr> \<and>
   parse_text example_nlp ''Sold 3 units'' = ''Sold units'' \<and>
   real (length ''Sold 3 units'') \<noteq> real (length (parse_text example_nlp ''Sold 3 units''))"
proof -
  have "parse_text example_nlp ''Sold 3 units'' = ''Sold units''"
    by (simp add: parse_text_def clean_sentence_def example_nlp_def noun_def numeral_token_def
        keep_token_def py_any_def)
  then show ?thesis
    unfolding raw_get_embeddings by simp
qed

section \<open>Properties of \<^verbatim>\<open>Corpus\<close> and \<^verbatim>\<open>eval_model\<close>\<close>

lemma eval_doc_ok:
  assumes "retrievable model sp train topn r"
  shows "eval_doc model sp train topn r acc =
     Inr (AList.update (key_of r) (top1 model sp train topn r) (fst acc),
          AList.update (cik r)
            (Counter (map (\<lambda>d. cik (train ! d)) (map fst (sims_of model sp topn r)))) (snd acc))"
proof -
  obtain d sim rest where s: "sims_of model sp topn r = (d, sim) # rest"
    using assms by (cases "sims_of model sp topn r") (auto simp: retrievable_def)
  have all: "list_all (\<lambda>d. d < length train) (map fst (sims_of model sp topn r))"
    using assms by (simp add: retrievable_def)
  obtain c y sx where k: "key_of (train ! d) = (c, y, sx)" by (cases "key_of (train ! d)")
  have fstk: "fst \<circ> key_of = cik" by (auto simp: key_of_def)
  show ?thesis
    using all unfolding eval_doc_def Let_def loc_keys_def sims_of_def[symmetric]
    by (simp add: s k top1_def key_of_def comp_def)
qed

lemma eval_doc_fails:
  assumes "\<not> retrievable model sp train topn r"
  shows "\<exists>e. eval_doc model sp train topn r acc = Inl e"
  using assms unfolding eval_doc_def Let_def loc_keys_def sims_of_def[symmetric] retrievable_def
  by (cases "sims_of model sp topn r") (auto split: prod.splits)

lemma eval_docs_ok:
  assumes "\<forall>r \<in> set test. retrievable model sp train topn r"
  shows "eval_docs model sp train topn test acc =
     Inr (fold (\<lambda>r. AList.update (key_of r) (top1 model sp train topn r)) test (fst acc),
          fold (\<lambda>r. AList.update (cik r)
            (Counter (map (\<lambda>d. cik (train ! d)) (map fst (sims_of model sp topn r))))) test (snd acc))"
  using assms
  by (induction test arbitrary: acc) (simp_all add: eval_doc_ok)

lemma eval_docs_fails:
  assumes "\<exists>r \<in> set test. \<not> retrievable model sp train topn r"
  shows "\<exists>e. eval_docs model sp train topn test acc = Inl e"
  using assms
proof (induction test arbitrary: acc)
  case Nil
  then show ?case by simp
next
  case (Cons r test)
  show ?case
  proof (cases "retrievable model sp train topn r")
    case True
    then show ?thesis using Cons by (simp add: eval_doc_ok)
  next
    case False
    then show ?thesis using eval_doc_fails[OF False, of acc] by auto
  qed
qed

lemma fold_update_map_of:
  "map_of (fold (\<lambda>r. AList.update (k r) (v r)) xs al) =
     map_of al ++ map_of (rev (map (\<lambda>r. (k r, v r)) xs))"
proof (induction xs arbitrary: al)
  case Nil
  then show ?case by simp
next
  case (Cons x xs)
  show ?case
    by (simp add: Cons.IH update_conv' map_of_append fun_eq_iff map_add_def split: option.splits)
qed

lemma fold_update_keys:
  "fst ` set (fold (\<lambda>r. AList.update (k r) (v r)) xs al) = fst ` set al \<union> k ` set xs"
  by (induction xs arbitrary: al) (auto simp: dom_update)

lemma fold_update_distinct:
  "distinct (map fst al) \<Longrightarrow> distinct (map fst (fold (\<lambda>r. AList.update (k r) (v r)) xs al))"
  by (induction xs arbitrary: al) (auto simp: distinct_update)

lemma fold_update_length:
  "length (fold (\<lambda>r. AList.update (k r) (v r)) xs []) = card (k ` set xs)"
proof -
  let ?t = "fold (\<lambda>r. AList.update (k r) (v r)) xs []"
  have d: "distinct (map fst ?t)" by (rule fold_update_distinct) simp
  then have "length ?t = card (set (map fst ?t))"
    using distinct_card[of "map fst ?t"] by simp
  also have "\<dots> = card (k ` set xs)"
    using fold_update_keys[of k v xs "[]"] by simp
  finally show ?thesis .
qed

lemma eval_model_ok:
  assumes "test \<noteq> []" and "\<forall>r \<in> set test. retrievable model sp train topn r"
  shows "eval_model test train model sp topn =
     Inr \<lparr>top = fold (\<lambda>r. AList.update (key_of r) (top1 model sp train topn r)) test [],
          sim_docs = fold (\<lambda>r. AList.update (cik r)
            (Counter (map (\<lambda>d. cik (train ! d)) (map fst (sims_of model sp topn r))))) test [],
          printed_same_document =
            real (length (filter same_document
              (fold (\<lambda>r. AList.update (key_of r) (top1 model sp train topn r)) test []))) /
            real (length (fold (\<lambda>r. AList.update (key_of r) (top1 model sp train topn r)) test [])) * 100,
          printed_same_company =
            real (length (filter same_company
              (fold (\<lambda>r. AList.update (key_of r) (top1 model sp train topn r)) test []))) /
            real (length (fold (\<lambda>r. AList.update (key_of r) (top1 model sp train topn r)) test [])) * 100\<rparr>"
proof -
  have "length (fold (\<lambda>r. AList.update (key_of r) (top1 model sp train topn r)) test []) =
      card (key_of ` set test)"
    by (rule fold_update_length)
  moreover have "card (key_of ` set test) \<noteq> 0"
    using assms(1) by simp
  ultimately have "length (fold (\<lambda>r. AList.update (key_of r) (top1 model sp train topn r)) test []) \<noteq> 0"
    by simp
  then show ?thesis
    unfolding eval_model_def eval_docs_ok[OF assms(2)] reported_def by simp
qed

lemma eval_model_fails:
  assumes "test = [] \<or> (\<exists>r \<in> set test. \<not> retrievable model sp train topn r)"
  shows "\<exists>e. eval_model test train model sp topn = Inl e"
proof (cases "test = []")
  case True
  then show ?thesis by (simp add: eval_model_def reported_def)
next
  case False
  with assms have "\<exists>r \<in> set test. \<not> retrievable model sp train topn r" by simp
  from eval_docs_fails[OF this, of "([], [])"] show ?thesis
    by (auto simp: eval_model_def)
qed

lemma ratio_bounds: "a \<le> n \<Longrightarrow> 0 \<le> real a / real n * 100 \<and> real a / real n * 100 \<le> 100"
  by (cases "n = 0") (auto simp: field_simps)

lemmas example_eval_defs =
  eval_model_def eval_doc_def loc_keys_def Counter_def key_of_def reported_def
  same_document_def same_company_def example_train_def example_model_def
  example_preprocess_def row_a_def row_b_def row_c_def

lemma example_eval_a_c:
  "eval_model [row_a, row_c] example_train example_model example_preprocess 10 =
     Inr \<lparr>top = [((''718413'', ''2015'', ''1''), (''718413'', ''2015'', ''1'', 9 / 10)),
                 ((''1000'', ''2016'', ''7''), (''1000'', ''2015'', ''7'', 8 / 10))],
          sim_docs = [(''718413'', [(''718413'', 1), (''1000'', 1)]),
                      (''1000'', [(''1000'', 1)])],
          printed_same_document = 50, printed_same_company = 100\<rparr>"
  by (simp add: example_eval_defs)

lemma example_eval_c_a:
  "eval_model [row_c, row_a] example_train example_model example_preprocess 10 =
     Inr \<lparr>top = [((''1000'', ''2016'', ''7''), (''1000'', ''2015'', ''7'', 8 / 10)),
                 ((''718413'', ''2015'', ''1''), (''718413'', ''2015'', ''1'', 9 / 10))],
          sim_docs = [(''1000'', [(''1000'', 1)]),
                      (''718413'', [(''718413'', 1), (''1000'', 1)])],
          printed_same_document = 50, printed_same_company = 100\<rparr>"
  by (simp add: example_eval_defs)

lemma example_retrievable:
  "retrievable example_model example_preprocess example_train 10 row_a"
  "retrievable example_model example_preprocess example_train 10 row_b"
  "retrievable example_model example_preprocess example_train 10 row_c"
  by (simp_all add: retrievable_def sims_of_def example_train_def example_model_def
      example_preprocess_def row_a_def row_b_def row_c_def)

text \<open>
  Claim C1, amended. For a non-empty test corpus on which the loop body raises no
  exception, \<^verbatim>\<open>eval_model\<close> returns; \<^verbatim>\<open>top\<close> maps the key of each test document to
  the key of the training document its first neighbour tags (the last document wins
  among documents with one key); and each of the two printed values is a percentage:
  the number of entries of \<^verbatim>\<open>top\<close> whose retrieved key matches (the whole triple,
  respectively the company), divided by the number of entries of \<^verbatim>\<open>top\<close>, times 100.
  Both lie in the interval from 0 to 100. The number of entries is the number of
  distinct keys among the test documents, which is the number of evaluated documents
  when their keys are pairwise distinct.
\<close>

theorem eval_model_reported_accuracy:
  assumes "test \<noteq> []"
    and "\<forall>r \<in> set test. retrievable model simple_preprocess train topn r"
  shows "\<exists>out. eval_model test train model simple_preprocess topn = Inr out \<and>
     map_of (top out) =
       map_of (rev (map (\<lambda>r. (key_of r, top1 model simple_preprocess train topn r)) test)) \<and>
     length (top out) = card (key_of ` set test) \<and>
     (distinct (map key_of test) \<longrightarrow> length (top out) = length test) \<and>
     printed_same_document out =
       real (length (filter same_document (top out))) / real (length (top out)) * 100 \<and>
     printed_same_company out =
       real (length (filter same_company (top out))) / real (length (top out)) * 100 \<and>
     0 \<le> printed_same_document out \<and> printed_same_document out \<le> 100 \<and>
     0 \<le> printed_same_company out \<and> printed_same_company out \<le> 100"
proof -
  let ?T = "fold (\<lambda>r. AList.update (key_of r) (top1 model simple_preprocess train topn r)) test []"
  have m: "map_of ?T =
      map_of (rev (map (\<lambda>r. (key_of r, top1 model simple_preprocess train topn r)) test))"
    by (simp add: fold_update_map_of)
  have l: "length ?T = card (key_of ` set test)"
    by (rule fold_update_length)
  have d: "distinct (map key_of test) \<longrightarrow> length ?T = length test"
    using l distinct_card[of "map key_of test"] by simp
  have b1: "0 \<le> real (length (filter same_document ?T)) / real (length ?T) * 100 \<and>
      real (length (filter same_document ?T)) / real (length ?T) * 100 \<le> 100"
    by (rule ratio_bounds) simp
  have b2: "0 \<le> real (length (filter same_company ?T)) / real (length ?T) * 100 \<and>
      real (length (filter same_company ?T)) / real (length ?T) * 100 \<le> 100"
    by (rule ratio_bounds) simp
  show ?thesis
    unfolding eval_model_ok[OF assms]
    using m l d b1 b2 by simp
qed

theorem eval_model_reported_accuracy_witness:
  "\<exists>out. eval_model [row_a, row_c] example_train example_model example_preprocess 10 = Inr out \<and>
     length (top out) = 2 \<and>
     printed_same_document out = real (length (filter same_document (top out))) / 2 * 100 \<and>
     printed_same_document out = 50 \<and> printed_same_company out = 100"
proof -
  have "[row_a, row_c] \<noteq> []" by simp
  moreover have "\<forall>r \<in> set [row_a, row_c].
      retrievable example_model example_preprocess example_train 10 r"
    by (simp add: example_retrievable)
  ultimately obtain out where
    out: "eval_model [row_a, row_c] example_train example_model example_preprocess 10 = Inr out"
      "printed_same_document out =
         real (length (filter same_document (top out))) / real (length (top out)) * 100"
    using eval_model_reported_accuracy[of "[row_a, row_c]" example_model example_preprocess
        example_train 10]
    by blast
  from out(1) have "length (top out) = 2" "printed_same_document out = 50"
    "printed_same_company out = 100"
    unfolding example_eval_a_c by auto
  with out show ?thesis by auto
qed

text \<open>
  Claim C1 as stated fails twice. On the single test document \<open>row_a\<close>, which the
  model retrieves, both printed values are 100, outside the interval from 0 to 1. On
  the three test documents \<open>row_a\<close>, \<open>row_a\<close>, \<open>row_c\<close> (a sample drawn with
  replacement), two of the three top-1 retrievals match their document, yet \<^verbatim>\<open>top\<close>
  has two entries, one of them matching, and the printed value is 50.
\<close>

theorem eval_model_reported_accuracy_counterexample:
  "eval_model [row_a] example_train example_model example_preprocess 10 =
     Inr \<lparr>top = [((''718413'', ''2015'', ''1''), (''718413'', ''2015'', ''1'', 9 / 10))],
          sim_docs = [(''718413'', [(''718413'', 1), (''1000'', 1)])],
          printed_same_document = 100, printed_same_company = 100\<rparr> \<and>
   (100::real) \<notin> {0..1} \<and>
   eval_model [row_a, row_a, row_c] example_train example_model example_preprocess 10 =
     Inr \<lparr>top = [((''718413'', ''2015'', ''1''), (''718413'', ''2015'', ''1'', 9 / 10)),
                 ((''1000'', ''2016'', ''7''), (''1000'', ''2015'', ''7'', 8 / 10))],
          sim_docs = [(''718413'', [(''718413'', 1), (''1000'', 1)]),
                      (''1000'', [(''1000'', 1)])],
          printed_same_document = 50, printed_same_company = 100\<rparr> \<and>
   length [row_a, row_a, row_c] = 3 \<and>
   length (filter (\<lambda>r. same_document
        (key_of r, top1 example_model example_preprocess example_train 10 r))
      [row_a, row_a, row_c]) = 2"
  by (simp add: example_eval_defs top1_def sims_of_def)

lemma Corpus_iter_nth:
  "length (Corpus_iter simple_preprocess data) = length data \<and>
   (\<forall>i < length data.
      Corpus_iter simple_preprocess data ! i =
        \<lparr>words = simple_preprocess (body (data ! i)), tags = [i]\<rparr>)"
  by (simp add: Corpus_iter_def enumerate_eq_zip)

lemma distinct_keys_set_determines:
  assumes "distinct (map fst xs)" "distinct (map fst ys)" "map_of xs = map_of ys"
  shows "length (filter P xs) = length (filter P ys) \<and> length xs = length ys"
proof -
  have s: "set xs = set ys"
    using map_of_inject_set[OF assms(1,2)] assms(3) by simp
  have dx: "distinct xs" and dy: "distinct ys"
    using assms(1,2) by (auto simp: distinct_map)
  have "length (filter P xs) = card (set (filter P xs))"
    using dx distinct_card[of "filter P xs"] by simp
  also have "\<dots> = card (set (filter P ys))" using s by simp
  also have "\<dots> = length (filter P ys)"
    using dy distinct_card[of "filter P ys"] by simp
  finally have 1: "length (filter P xs) = length (filter P ys)" .
  have "length xs = card (set xs)" using dx by (simp add: distinct_card)
  also have "\<dots> = length ys" using dy s by (simp add: distinct_card)
  finally show ?thesis using 1 by simp
qed

text \<open>
  Claim C6, amended. \<^verbatim>\<open>Corpus.__iter__\<close> tags the document of row \<open>i\<close> with the row
  position \<open>i\<close>, not with the row's identifier. For a fixed model and training corpus,
  and test rows with pairwise distinct keys, permuting the test rows changes neither
  whether \<^verbatim>\<open>eval_model\<close> raises, nor the content of \<^verbatim>\<open>top\<close> as a mapping from keys to
  retrieved keys, nor the two printed values.
\<close>

theorem eval_model_top_permutation:
  assumes "mset test' = mset test" and "distinct (map key_of test)"
  shows "(\<forall>i < length data.
            Corpus_iter simple_preprocess data ! i =
              \<lparr>words = simple_preprocess (body (data ! i)), tags = [i]\<rparr>) \<and>
         (case eval_model test train model simple_preprocess topn of
            Inl e \<Rightarrow> (\<exists>e'. eval_model test' train model simple_preprocess topn = Inl e')
          | Inr out \<Rightarrow>
              (\<exists>out'. eval_model test' train model simple_preprocess topn = Inr out' \<and>
                 map_of (top out') = map_of (top out) \<and>
                 printed_same_document out' = printed_same_document out \<and>
                 printed_same_company out' = printed_same_company out))"
proof -
  let ?kv = "\<lambda>r. (key_of r, top1 model simple_preprocess train topn r)"
  let ?T = "\<lambda>test. fold (\<lambda>r. AList.update (key_of r) (top1 model simple_preprocess train topn r)) test []"
  have set_eq: "set test' = set test"
    using assms(1) by (rule mset_eq_setD)
  have nil_eq: "test' = [] \<longleftrightarrow> test = []"
    using assms(1) by (metis mset_zero_iff)
  have d': "distinct (map key_of test')"
  proof -
    have "mset (map key_of test') = mset (map key_of test)" using assms(1) by simp
    then show ?thesis using assms(2) by (metis mset_eq_imp_distinct_iff)
  qed
  show ?thesis
  proof (cases "test \<noteq> [] \<and> (\<forall>r \<in> set test. retrievable model simple_preprocess train topn r)")
    case True
    then have ok: "test \<noteq> []" "\<forall>r \<in> set test. retrievable model simple_preprocess train topn r"
      by simp_all
    have ok': "test' \<noteq> []" "\<forall>r \<in> set test'. retrievable model simple_preprocess train topn r"
      using ok set_eq nil_eq by simp_all
    have dT: "distinct (map fst (?T test))" "distinct (map fst (?T test'))"
      by (simp_all add: fold_update_distinct)
    have "map_of (rev (map ?kv test')) = map_of (rev (map ?kv test))"
    proof -
      have "distinct (map fst (rev (map ?kv test')))" "distinct (map fst (rev (map ?kv test)))"
        using d' assms(2) by (simp_all add: rev_map[symmetric] comp_def)
      moreover have "set (rev (map ?kv test')) = set (rev (map ?kv test))"
        using set_eq by simp
      ultimately show ?thesis by (simp add: map_of_inject_set)
    qed
    then have m: "map_of (?T test') = map_of (?T test)"
      by (simp add: fold_update_map_of)
    note c = distinct_keys_set_determines[OF dT(2) dT(1) m]
    show ?thesis
      unfolding eval_model_ok[OF ok] eval_model_ok[OF ok']
      using m c[of same_document] c[of same_company] Corpus_iter_nth[of simple_preprocess data]
      by simp
  next
    case False
    then have f: "test = [] \<or> (\<exists>r \<in> set test. \<not> retrievable model simple_preprocess train topn r)"
      by auto
    then have f': "test' = [] \<or> (\<exists>r \<in> set test'. \<not> retrievable model simple_preprocess train topn r)"
      using set_eq nil_eq by simp
    from eval_model_fails[OF f] eval_model_fails[OF f'] Corpus_iter_nth[of simple_preprocess data]
    show ?thesis by auto
  qed
qed

theorem eval_model_top_permutation_witness:
  "Corpus_iter example_preprocess [row_a, row_c] ! 1 = \<lparr>words = [''results''], tags = [1]\<rparr> \<and>
   (\<exists>out out'.
      eval_model [row_a, row_c] example_train example_model example_preprocess 10 = Inr out \<and>
      eval_model [row_c, row_a] example_train example_model example_preprocess 10 = Inr out' \<and>
      map_of (top out') = map_of (top out) \<and> top out' \<noteq> top out \<and>
      printed_same_document out' = printed_same_document out)"
proof -
  have p: "mset [row_c, row_a] = mset [row_a, row_c]" by simp
  have d: "distinct (map key_of [row_a, row_c])"
    by (simp add: key_of_def row_a_def row_c_def)
  have i: "1 < length [row_a, row_c]" by simp
  note t = eval_model_top_permutation[OF p d, of "[row_a, row_c]" example_preprocess
      example_train example_model 10]
  from t i have "Corpus_iter example_preprocess [row_a, row_c] ! 1 =
      \<lparr>words = example_preprocess (body ([row_a, row_c] ! 1)), tags = [1]\<rparr>"
    by blast
  then have 1: "Corpus_iter example_preprocess [row_a, row_c] ! 1 =
      \<lparr>words = [''results''], tags = [1]\<rparr>"
    by (simp add: row_c_def example_preprocess_def)
  from t obtain out' where
    "eval_model [row_c, row_a] example_train example_model example_preprocess 10 = Inr out'"
    "map_of (top out') = map_of (top (projr
       (eval_model [row_a, row_c] example_train example_model example_preprocess 10)))"
    "printed_same_document out' = printed_same_document (projr
       (eval_model [row_a, row_c] example_train example_model example_preprocess 10))"
    unfolding example_eval_a_c by auto
  moreover have "top out' \<noteq> top (projr
       (eval_model [row_a, row_c] example_train example_model example_preprocess 10))"
    using calculation(1) unfolding example_eval_a_c example_eval_c_a by auto
  ultimately show ?thesis using 1 example_eval_a_c by auto
qed

text \<open>
  Claim C6 as stated fails for corpus construction and for the second output of the
  evaluation. Swapping two rows swaps the documents tagged 0 and 1. \<^verbatim>\<open>sim_docs\<close> is
  keyed by the company alone and keeps the neighbour counts of the company's last test
  row: for the two sections \<open>row_a\<close> and \<open>row_b\<close> of one filing it depends on which row
  comes last.
\<close>

theorem eval_model_top_permutation_counterexample:
  "Corpus_iter example_preprocess [row_a, row_c] =
     [\<lparr>words = [''sold'', ''units''], tags = [0]\<rparr>, \<lparr>words = [''results''], tags = [1]\<rparr>] \<and>
   Corpus_iter example_preprocess [row_c, row_a] =
     [\<lparr>words = [''results''], tags = [0]\<rparr>, \<lparr>words = [''sold'', ''units''], tags = [1]\<rparr>] \<and>
   eval_model [row_a, row_b] example_train example_model example_preprocess 10 =
     Inr \<lparr>top = [((''718413'', ''2015'', ''1''), (''718413'', ''2015'', ''1'', 9 / 10)),
                 ((''718413'', ''2015'', ''7''), (''1000'', ''2015'', ''7'', 8 / 10))],
          sim_docs = [(''718413'', [(''1000'', 1)])],
          printed_same_document = 50, printed_same_company = 50\<rparr> \<and>
   eval_model [row_b, row_a] example_train example_model example_preprocess 10 =
     Inr \<lparr>top = [((''718413'', ''2015'', ''7''), (''1000'', ''2015'', ''7'', 8 / 10)),
                 ((''718413'', ''2015'', ''1''), (''718413'', ''2015'', ''1'', 9 / 10))],
          sim_docs = [(''718413'', [(''718413'', 1), (''1000'', 1)])],
          printed_same_document = 50, printed_same_company = 50\<rparr>"
  by (simp add: example_eval_defs Corpus_iter_def enumerate_eq_zip)

end
